theory Spec2Isabelle
  imports Complex_Main
begin

section \<open>Values and arrays\<close>

subsection \<open>float64, idealised\<close>

text \<open>
  A numpy \<^verbatim>\<open>float64\<close> is a finite number, one of the two infinities or not-a-number.
  Finite arithmetic is exact here (no rounding, no overflow to infinity) and the two
  zeros are one value; a zero divisor counts as \<open>+0\<close>. The special values follow
  IEEE 754 as numpy computes them under its default error state (warnings, no
  exception).
\<close>

datatype fl = Fin real | PInf | NInf | NaN

fun is_nan :: "fl \<Rightarrow> bool" where
  "is_nan NaN = True"
| "is_nan _ = False"


fun fneg :: "fl \<Rightarrow> fl" where
  "fneg (Fin a) = Fin (- a)"
| "fneg PInf = NInf"
| "fneg NInf = PInf"
| "fneg NaN = NaN"

fun fadd :: "fl \<Rightarrow> fl \<Rightarrow> fl" where
  "fadd (Fin a) (Fin b) = Fin (a + b)"
| "fadd (Fin a) PInf = PInf"
| "fadd (Fin a) NInf = NInf"
| "fadd PInf (Fin b) = PInf"
| "fadd PInf PInf = PInf"
| "fadd PInf NInf = NaN"
| "fadd NInf (Fin b) = NInf"
| "fadd NInf PInf = NaN"
| "fadd NInf NInf = NInf"
| "fadd NaN y = NaN"
| "fadd x NaN = NaN"

definition fsub :: "fl \<Rightarrow> fl \<Rightarrow> fl" where
  "fsub x y = fadd x (fneg y)"

text \<open>The product of an infinity and a finite factor: not-a-number at zero.\<close>

definition inf_times :: "bool \<Rightarrow> real \<Rightarrow> fl" where
  "inf_times positive a =
     (if a = 0 then NaN else if (0 < a) = positive then PInf else NInf)"

fun fmul :: "fl \<Rightarrow> fl \<Rightarrow> fl" where
  "fmul (Fin a) (Fin b) = Fin (a * b)"
| "fmul (Fin a) PInf = inf_times True a"
| "fmul (Fin a) NInf = inf_times False a"
| "fmul PInf (Fin b) = inf_times True b"
| "fmul NInf (Fin b) = inf_times False b"
| "fmul PInf PInf = PInf"
| "fmul PInf NInf = NInf"
| "fmul NInf PInf = NInf"
| "fmul NInf NInf = PInf"
| "fmul NaN y = NaN"
| "fmul x NaN = NaN"

fun fdiv :: "fl \<Rightarrow> fl \<Rightarrow> fl" where
  "fdiv (Fin a) (Fin b) =
     (if b = 0 then (if a = 0 then NaN else if 0 < a then PInf else NInf)
      else Fin (a / b))"
| "fdiv (Fin a) PInf = Fin 0"
| "fdiv (Fin a) NInf = Fin 0"
| "fdiv PInf (Fin b) = (if 0 \<le> b then PInf else NInf)"
| "fdiv NInf (Fin b) = (if 0 \<le> b then NInf else PInf)"
| "fdiv PInf PInf = NaN"
| "fdiv PInf NInf = NaN"
| "fdiv NInf PInf = NaN"
| "fdiv NInf NInf = NaN"
| "fdiv NaN y = NaN"
| "fdiv x NaN = NaN"

text \<open>\<^verbatim>\<open>a <= b\<close>: false as soon as one side is not-a-number.\<close>

fun fle :: "fl \<Rightarrow> fl \<Rightarrow> bool" where
  "fle (Fin a) (Fin b) = (a \<le> b)"
| "fle (Fin a) PInf = True"
| "fle (Fin a) NInf = False"
| "fle PInf (Fin b) = False"
| "fle PInf PInf = True"
| "fle PInf NInf = False"
| "fle NInf (Fin b) = True"
| "fle NInf PInf = True"
| "fle NInf NInf = True"
| "fle NaN y = False"
| "fle x NaN = False"

text \<open>
  \<^verbatim>\<open>np.log\<close>: minus infinity at zero, not-a-number below zero, in both cases with a
  warning only.
\<close>

fun flog :: "fl \<Rightarrow> fl" where
  "flog (Fin a) = (if 0 < a then Fin (ln a) else if a = 0 then NInf else NaN)"
| "flog PInf = PInf"
| "flog NInf = NaN"
| "flog NaN = NaN"

subsection \<open>Arrays and exceptions\<close>

text \<open>
  A numpy array is its shape and its elements in row-major order; a well-formed array
  has as many elements as its shape says.
\<close>

record 'a ndarray =
  shape :: "nat list"
  elems :: "'a list"

definition wf_array :: "'a ndarray \<Rightarrow> bool" where
  "wf_array a = (length (elems a) = prod_list (shape a))"

datatype error = ValueError | IndexError | TypeError

text \<open>Python indexing of a sequence of length \<open>n\<close>: a negative index counts from the end.\<close>

definition py_index :: "nat \<Rightarrow> int \<Rightarrow> nat" where
  "py_index n i = (if i < 0 then nat (int n + i) else nat i)"

section \<open>Decay index\<close>

subsection \<open>The field volume and the interpolator\<close>

record field3d =
  bx :: "fl ndarray"
  by_c :: "fl ndarray"
  bz :: "fl ndarray"
  bh :: "fl ndarray"

text \<open>
  \<^verbatim>\<open>scipy.interpolate.RegularGridInterpolator((x, y, z), values)\<close> with the three
  axes \<^verbatim>\<open>np.arange(nx)\<close>, \<^verbatim>\<open>np.arange(ny)\<close>, \<^verbatim>\<open>np.arange(nz)\<close>, the linear method
  and \<^verbatim>\<open>bounds_error=True\<close>. An axis \<^verbatim>\<open>np.arange(n)\<close> is kept as its length \<open>n\<close>.
  The constructor needs \<^verbatim>\<open>values\<close> to have at least as many dimensions as there are
  axes, each of the leading ones as long as its axis.
\<close>

record rgi =
  grid :: "nat list"
  vals :: "fl ndarray"

definition RegularGridInterpolator :: "nat list \<Rightarrow> fl ndarray \<Rightarrow> error + rgi" where
  "RegularGridInterpolator axes values =
     (if length (shape values) < length axes then Inl ValueError
      else if take (length axes) (shape values) \<noteq> axes then Inl ValueError
      else Inr \<lparr>grid = axes, vals = values\<rparr>)"

record calculator =
  field :: field3d
  dx :: real
  bh_interpolator :: rgi

definition setup_interpolators :: "field3d \<Rightarrow> error + rgi" where
  "setup_interpolators fld =
     (case shape (bx fld) of
        [nx, ny, nz] \<Rightarrow> RegularGridInterpolator [nx, ny, nz] (bh fld)
      | _ \<Rightarrow> Inl ValueError)"

definition init_calculator :: "field3d \<Rightarrow> real \<Rightarrow> error + calculator" where
  "init_calculator magnetic_field_3d grid_spacing =
     (case setup_interpolators magnetic_field_3d of
        Inl e \<Rightarrow> Inl e
      | Inr itp \<Rightarrow>
          Inr \<lparr>field = magnetic_field_3d, dx = grid_spacing, bh_interpolator = itp\<rparr>)"

text \<open>
  Locating a coordinate on the axis \<^verbatim>\<open>np.arange(n)\<close>:
  \<^verbatim>\<open>i = np.searchsorted(grid, x) - 1\<close>, clipped to \<open>0 .. n - 2\<close>, and the normalised
  distance \<^verbatim>\<open>(x - grid[i]) / (grid[i + 1] - grid[i])\<close>, taken as \<open>0\<close> on an axis of
  one point (where the two grid values coincide).
\<close>

definition searchsorted :: "nat \<Rightarrow> real \<Rightarrow> nat" where
  "searchsorted n x = length (filter (\<lambda>g. real g < x) [0..<n])"

definition find_indices :: "nat \<Rightarrow> real \<Rightarrow> int \<times> real" where
  "find_indices n x =
     (let i0 = int (searchsorted n x) - 1;
          i1 = (if i0 < 0 then 0 else i0);
          i = (if i1 > int n - 2 then int n - 2 else i1);
          lo = real (py_index n i);
          hi = real (py_index n (i + 1));
          denom = hi - lo
      in (i, if denom \<noteq> 0 then (x - lo) / denom else 0))"

definition at3 :: "fl ndarray \<Rightarrow> int \<Rightarrow> int \<Rightarrow> int \<Rightarrow> fl" where
  "at3 a i j k =
     (case shape a of
        [nx, ny, nz] \<Rightarrow> elems a ! ((py_index nx i * ny + py_index ny j) * nz + py_index nz k)
      | _ \<Rightarrow> NaN)"

text \<open>
  The linear evaluation at one point: the sum, over the eight corners of the cell in
  the order of \<^verbatim>\<open>itertools.product\<close>, of the corner value times the product of its three
  weights, started from \<open>0\<close>.
\<close>

definition evaluate_linear :: "rgi \<Rightarrow> real \<times> real \<times> real \<Rightarrow> fl" where
  "evaluate_linear itp p =
     (case p of (x, y, z) \<Rightarrow>
      (let (i0, y0) = find_indices (grid itp ! 0) x;
           (i1, y1) = find_indices (grid itp ! 1) y;
           (i2, y2) = find_indices (grid itp ! 2) z;
           hypercube =
             [(a, b, c). a \<leftarrow> [(i0, 1 - y0), (i0 + 1, y0)],
                         b \<leftarrow> [(i1, 1 - y1), (i1 + 1, y1)],
                         c \<leftarrow> [(i2, 1 - y2), (i2 + 1, y2)]]
       in foldl (\<lambda>total h.
             case h of ((ea, wa), (eb, wb), (ec, wc)) \<Rightarrow>
               fadd total (fmul (at3 (vals itp) ea eb ec) (Fin (1 * wa * wb * wc))))
            (Fin 0) hypercube))"

definition in_bounds :: "nat \<Rightarrow> real list \<Rightarrow> bool" where
  "in_bounds n ps = (list_all (\<lambda>p. 0 \<le> p) ps \<and> list_all (\<lambda>p. p \<le> real n - 1) ps)"

text \<open>
  Calling the interpolator on a list of points. The bounds check reads the first and
  last entry of every axis (an \<^verbatim>\<open>IndexError\<close> on an empty axis) and raises
  \<^verbatim>\<open>ValueError\<close> when a coordinate lies outside its axis.
\<close>

definition rgi_call :: "rgi \<Rightarrow> (real \<times> real \<times> real) list \<Rightarrow> error + fl list" where
  "rgi_call itp xi =
     (case grid itp of
        [nx, ny, nz] \<Rightarrow>
          if nx = 0 then Inl IndexError
          else if \<not> in_bounds nx (map fst xi) then Inl ValueError
          else if ny = 0 then Inl IndexError
          else if \<not> in_bounds ny (map (fst \<circ> snd) xi) then Inl ValueError
          else if nz = 0 then Inl IndexError
          else if \<not> in_bounds nz (map (snd \<circ> snd) xi) then Inl ValueError
          else Inr (map (evaluate_linear itp) xi)
      | _ \<Rightarrow> Inl ValueError)"

subsection \<open>numpy's linspace and gradient\<close>

text \<open>
  \<^verbatim>\<open>np.linspace(start, stop, num)\<close> and \<^verbatim>\<open>np.gradient(f, z)\<close>. The float64 operations
  of \<^verbatim>\<open>linspace\<close> round, and \<^verbatim>\<open>gradient\<close> chooses its formula by comparing the rounded
  spacings \<^verbatim>\<open>np.diff(z)\<close> of the heights: whether they are all equal depends on that
  rounding. The rounding \<open>rnd\<close> of the result of an operation is therefore a
  parameter, applied where \<^verbatim>\<open>linspace\<close> subtracts, divides, multiplies and adds and
  where \<^verbatim>\<open>gradient\<close> takes the spacings; the arithmetic on the sampled values is that
  of \<open>fl\<close>. The last height is set to \<open>stop\<close> itself. \<open>exact\<close> is the rounding that
  changes nothing.
\<close>

definition exact :: "real \<Rightarrow> real" where
  "exact r = r"

definition linspace :: "(real \<Rightarrow> real) \<Rightarrow> real \<Rightarrow> real \<Rightarrow> int \<Rightarrow> error + real list" where
  "linspace rnd start stop num =
     (if num < 0 then Inl ValueError
      else
        let divisor = num - 1;
            delta = rnd (stop - start);
            step = rnd (delta / real_of_int divisor);
            y = map (\<lambda>i. if 0 < divisor then
                            (if step = 0 then rnd (rnd (real i / real_of_int divisor) * delta)
                             else rnd (real i * step))
                          else rnd (real i * delta)) [0..<nat num];
            y' = map (\<lambda>v. rnd (v + start)) y
        in Inr (if 1 < num then y'[nat num - 1 := stop] else y'))"

text \<open>
  \<^verbatim>\<open>np.gradient(f, z)\<close> for one-dimensional \<open>f\<close> and a coordinate array \<open>z\<close>, with
  \<^verbatim>\<open>edge_order=1\<close>: one-sided first differences at the two ends; inside, the central
  difference when all spacings are equal, the second-order three-point formula
  otherwise, on the spacings as \<^verbatim>\<open>np.diff\<close> rounds them. Fewer than two samples raise.
\<close>

definition gradient :: "(real \<Rightarrow> real) \<Rightarrow> fl list \<Rightarrow> real list \<Rightarrow> error + fl list" where
  "gradient rnd f z =
     (if length z \<noteq> length f then Inl ValueError
      else if length z < 2 then Inl IndexError
      else
        let n = length f;
            diffx = map (\<lambda>i. rnd (z ! (i + 1) - z ! i)) [0..<n - 1];
            uniform_spacing = list_all (\<lambda>d. d = diffx ! 0) diffx
        in Inr (map (\<lambda>i.
              if i = 0 then fdiv (fsub (f ! 1) (f ! 0)) (Fin (diffx ! 0))
              else if i = n - 1 then
                fdiv (fsub (f ! (n - 1)) (f ! (n - 2))) (Fin (diffx ! (n - 2)))
              else if uniform_spacing then
                fdiv (fsub (f ! (i + 1)) (f ! (i - 1))) (Fin (2 * diffx ! 0))
              else
                let dx1 = diffx ! (i - 1);
                    dx2 = diffx ! i;
                    a = fdiv (Fin (- dx2)) (Fin (dx1 * (dx1 + dx2)));
                    b = fdiv (Fin (dx2 - dx1)) (Fin (dx1 * dx2));
                    c = fdiv (Fin dx1) (Fin (dx2 * (dx1 + dx2)))
                in fadd (fadd (fmul a (f ! (i - 1))) (fmul b (f ! i))) (fmul c (f ! (i + 1))))
            [0..<n]))"

subsection \<open>The decay index profile and the critical height\<close>

text \<open>
  The sampled magnitudes are a one-dimensional array only when the interpolated
  volume is three-dimensional; with trailing dimensions \<^verbatim>\<open>np.gradient\<close> is given too
  few coordinate arrays and raises \<^verbatim>\<open>TypeError\<close>.
\<close>

definition calculate_decay_index ::
  "(real \<Rightarrow> real) \<Rightarrow> calculator \<Rightarrow> real \<Rightarrow> real \<Rightarrow> (real \<times> real) option \<Rightarrow> int \<Rightarrow>
     error + fl list" where
  "calculate_decay_index rnd c x y z_range n_points =
     (let zr = (case z_range of
                  None \<Rightarrow> (0, real_of_int (int (shape (bh (field c)) ! 2) - 1))
                | Some r \<Rightarrow> r)
      in case linspace rnd (fst zr) (snd zr) n_points of
           Inl e \<Rightarrow> Inl e
         | Inr z \<Rightarrow>
             (case rgi_call (bh_interpolator c) (map (\<lambda>zi. (x, y, zi)) z) of
                Inl e \<Rightarrow> Inl e
              | Inr bhs \<Rightarrow>
                  if length (shape (vals (bh_interpolator c))) \<noteq> 3 then Inl TypeError
                  else
                    (case gradient rnd (map flog bhs) z of
                       Inl e \<Rightarrow> Inl e
                     | Inr d_ln_bh \<Rightarrow>
                         Inr (map2 (\<lambda>zi d. fmul (Fin (- zi)) d) z d_ln_bh))))"

record DecayIndexResult =
  decay_index :: "fl list"
  critical_height :: fl
  critical_height_range :: "fl \<times> fl"

definition in_band :: "real \<Rightarrow> real \<Rightarrow> fl \<Rightarrow> bool" where
  "in_band critical_index uncertainty v =
     (fle (Fin (critical_index - uncertainty)) v \<and> fle v (Fin (critical_index + uncertainty)))"

definition cross_points :: "real \<Rightarrow> real \<Rightarrow> fl list \<Rightarrow> nat list" where
  "cross_points critical_index uncertainty di =
     filter (\<lambda>i. in_band critical_index uncertainty (di ! i)) [0..<length di]"

definition find_critical_height ::
  "(real \<Rightarrow> real) \<Rightarrow> calculator \<Rightarrow> real \<Rightarrow> real \<Rightarrow> real \<Rightarrow> real \<Rightarrow>
     error + DecayIndexResult" where
  "find_critical_height rnd c x y critical_index uncertainty =
     (case calculate_decay_index rnd c x y None 100 of
        Inl e \<Rightarrow> Inl e
      | Inr di \<Rightarrow>
          let z = map (\<lambda>i. real i * dx c) [0..<length di];
              cps = cross_points critical_index uncertainty di
          in if length cps = 0 then
               Inr \<lparr>decay_index = di, critical_height = PInf,
                    critical_height_range = (PInf, PInf)\<rparr>
             else
               Inr \<lparr>decay_index = di,
                    critical_height = Fin (z ! (cps ! 0)),
                    critical_height_range =
                      (Fin (z ! (cps ! 0) - uncertainty * dx c),
                       Fin (z ! (last cps) + uncertainty * dx c))\<rparr>)"

subsection \<open>The profile as the specification words it\<close>

text \<open>
  The \<open>i\<close>-th of \<open>n\<close> evenly spaced heights from \<open>a\<close> to \<open>b\<close>, as they are when no
  operation rounds.
\<close>

definition sample_height :: "real \<Rightarrow> real \<Rightarrow> nat \<Rightarrow> nat \<Rightarrow> real" where
  "sample_height a b n i = a + real i * ((b - a) / real (n - 1))"

text \<open>
  The difference quotient of the samples \<open>f\<close> taken at spacing \<open>h\<close>: central inside,
  one-sided at the first and at the last sample.
\<close>

definition central_gradient :: "(nat \<Rightarrow> fl) \<Rightarrow> real \<Rightarrow> nat \<Rightarrow> nat \<Rightarrow> fl" where
  "central_gradient f h n i =
     (if i = 0 then fdiv (fsub (f 1) (f 0)) (Fin h)
      else if i = n - 1 then fdiv (fsub (f (n - 1)) (f (n - 2))) (Fin h)
      else fdiv (fsub (f (i + 1)) (f (i - 1))) (Fin (2 * h)))"


definition log_magnitude :: "calculator \<Rightarrow> real \<Rightarrow> real \<Rightarrow> real \<Rightarrow> fl" where
  "log_magnitude c x y z = flog (evaluate_linear (bh_interpolator c) (x, y, z))"

text \<open>
  The range of heights of a query (by default the whole vertical extent of the volume),
  and a query that stays inside the grid of the volume.
\<close>

definition z_range_of :: "calculator \<Rightarrow> (real \<times> real) option \<Rightarrow> real \<times> real" where
  "z_range_of c z_range =
     (case z_range of None \<Rightarrow> (0, real (shape (bh (field c)) ! 2) - 1) | Some r \<Rightarrow> r)"

definition query_in_grid :: "calculator \<Rightarrow> real \<Rightarrow> real \<Rightarrow> real \<times> real \<Rightarrow> bool" where
  "query_in_grid c x y zr =
     (case shape (bh (field c)) of
        [nx, ny, nz] \<Rightarrow>
          0 \<le> x \<and> x \<le> real nx - 1 \<and> 0 \<le> y \<and> y \<le> real ny - 1 \<and>
          0 \<le> fst zr \<and> fst zr \<le> real nz - 1 \<and> 0 \<le> snd zr \<and> snd zr \<le> real nz - 1
      | _ \<Rightarrow> False)"

text \<open>
  The decay index \<open>- z * d(ln magnitude)/dz\<close> at the \<open>i\<close>-th of \<open>n\<close> evenly spaced heights.
\<close>

definition profile_entry :: "calculator \<Rightarrow> real \<Rightarrow> real \<Rightarrow> real \<times> real \<Rightarrow> nat \<Rightarrow> nat \<Rightarrow> fl" where
  "profile_entry c x y zr n i =
     fmul (Fin (- sample_height (fst zr) (snd zr) n i))
          (central_gradient (\<lambda>k. log_magnitude c x y (sample_height (fst zr) (snd zr) n k))
             ((snd zr - fst zr) / real (n - 1)) n i)"





section \<open>Polarity inversion lines\<close>

text \<open>
  The image routines of scipy and scikit-image that the detector calls are parameters:
  the Gaussian filter, the Canny edge detector, the dilation with a square of a given
  side, and the two deletion tables of the thinning.
\<close>

record imglib =
  gaussian_filter :: "fl ndarray \<Rightarrow> real \<Rightarrow> fl ndarray"
  canny :: "fl ndarray \<Rightarrow> real \<Rightarrow> bool ndarray"
  dilation :: "bool ndarray \<Rightarrow> nat \<Rightarrow> bool ndarray"
  g123_lut :: "nat \<Rightarrow> bool"
  g123p_lut :: "nat \<Rightarrow> bool"

datatype pixmap = FloatMap "fl ndarray" | BoolMap "bool ndarray"

fun map_shape :: "pixmap \<Rightarrow> nat list" where
  "map_shape (FloatMap a) = shape a"
| "map_shape (BoolMap a) = shape a"

text \<open>The truth values of the pixels of a map: a float pixel is true when it is not zero.\<close>

fun pixels :: "pixmap \<Rightarrow> bool list" where
  "pixels (FloatMap a) = map (\<lambda>v. v \<noteq> Fin 0) (elems a)"
| "pixels (BoolMap a) = elems a"

record PILDetector =
  data :: "fl ndarray"
  pos_map :: "fl ndarray option"
  neg_map :: "fl ndarray option"
  pil_map :: "pixmap option"

definition init_detector :: "fl ndarray \<Rightarrow> PILDetector" where
  "init_detector magnetogram_data =
     \<lparr>data = magnetogram_data, pos_map = None, neg_map = None, pil_map = None\<rparr>"

definition np_zeros :: "nat list \<Rightarrow> fl ndarray" where
  "np_zeros sh = \<lparr>shape = sh, elems = replicate (prod_list sh) (Fin 0)\<rparr>"

text \<open>\<^verbatim>\<open>np.where(c)\<close>: the indices of the true entries, here as row-major positions.\<close>

definition np_where :: "bool list \<Rightarrow> nat list" where
  "np_where c = filter (\<lambda>i. c ! i) [0..<length c]"

text \<open>\<^verbatim>\<open>a[indices] = v\<close>\<close>

definition put :: "'a ndarray \<Rightarrow> nat list \<Rightarrow> 'a \<Rightarrow> 'a ndarray" where
  "put a indices v = a\<lparr>elems := foldl (\<lambda>xs i. xs[i := v]) (elems a) indices\<rparr>"

definition identify_polarity_regions ::
  "imglib \<Rightarrow> PILDetector \<Rightarrow> real \<Rightarrow> real \<Rightarrow> bool \<Rightarrow> real \<Rightarrow> PILDetector" where
  "identify_polarity_regions lib self pos_thresh neg_thresh apply_gaussian sigma =
     (let d = (if apply_gaussian then gaussian_filter lib (data self) sigma else data self);
          pos_indices = np_where (map (\<lambda>v. fle (Fin pos_thresh) v) (elems d));
          neg_indices = np_where (map (\<lambda>v. fle v (Fin neg_thresh)) (elems d))
      in self\<lparr>pos_map := Some (put (np_zeros (shape d)) pos_indices (Fin 1)),
               neg_map := Some (put (np_zeros (shape d)) neg_indices (Fin 1))\<rparr>)"

text \<open>
  scikit-image checks its image argument first: an empty array and an array that is not
  two-dimensional raise \<^verbatim>\<open>ValueError\<close>. \<^verbatim>\<open>None\<close> in the place of an array raises as well
  (which exception depends on the version of the library; it is \<^verbatim>\<open>ValueError\<close> here).
\<close>

definition check_nD :: "'a ndarray option \<Rightarrow> error + 'a ndarray" where
  "check_nD img =
     (case img of
        None \<Rightarrow> Inl ValueError
      | Some a \<Rightarrow>
          if prod_list (shape a) = 0 then Inl ValueError
          else if length (shape a) \<noteq> 2 then Inl ValueError
          else Inr a)"

definition detect_edges ::
  "imglib \<Rightarrow> PILDetector \<Rightarrow> real \<Rightarrow> error + bool ndarray \<times> bool ndarray" where
  "detect_edges lib self sigma =
     (case check_nD (pos_map self) of
        Inl e \<Rightarrow> Inl e
      | Inr p \<Rightarrow>
          (case check_nD (neg_map self) of
             Inl e \<Rightarrow> Inl e
           | Inr n \<Rightarrow> Inr (canny lib p sigma, canny lib n sigma)))"

definition dilate_edges :: "imglib \<Rightarrow> bool ndarray \<Rightarrow> nat \<Rightarrow> bool ndarray" where
  "dilate_edges lib edges side = dilation lib edges side"

text \<open>
  \<^verbatim>\<open>a & b\<close> on boolean arrays of one shape; operands of different shapes are taken to
  raise (the image routines return arrays of the shape of their argument, so that
  numpy's broadcasting never comes into play).
\<close>

definition logical_and :: "bool ndarray \<Rightarrow> bool ndarray \<Rightarrow> error + bool ndarray" where
  "logical_and a b =
     (if shape a \<noteq> shape b then Inl ValueError
      else Inr \<lparr>shape = shape a, elems = map2 (\<and>) (elems a) (elems b)\<rparr>)"

subsection \<open>Thinning\<close>

text \<open>
  \<^verbatim>\<open>skimage.morphology.thin\<close>: the image as booleans; then, until the number of set
  pixels stops changing, two sub-iterations, each of which codes the eight neighbours
  of every pixel (zero outside the image) by correlation with the mask of rows
  \<^verbatim>\<open>8 4 2\<close>, \<^verbatim>\<open>16 0 1\<close> and \<^verbatim>\<open>32 64 128\<close>, looks the code up in its deletion table
  and clears the pixels the table marks.
\<close>

definition pixel :: "bool ndarray \<Rightarrow> int \<Rightarrow> int \<Rightarrow> nat" where
  "pixel a r c =
     (case shape a of
        [nr, nc] \<Rightarrow>
          if 0 \<le> r \<and> r < int nr \<and> 0 \<le> c \<and> c < int nc \<and> elems a ! (nat r * nc + nat c)
          then 1 else 0
      | _ \<Rightarrow> 0)"

definition correlate_mask :: "bool ndarray \<Rightarrow> int \<Rightarrow> int \<Rightarrow> nat" where
  "correlate_mask a r c =
     8 * pixel a (r - 1) (c - 1) + 4 * pixel a (r - 1) c + 2 * pixel a (r - 1) (c + 1) +
     16 * pixel a r (c - 1) + 0 * pixel a r c + 1 * pixel a r (c + 1) +
     32 * pixel a (r + 1) (c - 1) + 64 * pixel a (r + 1) c + 128 * pixel a (r + 1) (c + 1)"

definition subiteration :: "(nat \<Rightarrow> bool) \<Rightarrow> bool ndarray \<Rightarrow> bool ndarray" where
  "subiteration lut skel =
     (let nc = shape skel ! 1
      in skel\<lparr>elems :=
           map (\<lambda>k. if lut (correlate_mask skel (int (k div nc)) (int (k mod nc))) then False
                     else elems skel ! k)
             [0..<length (elems skel)]\<rparr>)"

definition n_pts :: "bool ndarray \<Rightarrow> nat" where
  "n_pts skel = length (filter (\<lambda>b. b) (elems skel))"

function thin_loop :: "(nat \<Rightarrow> bool) \<Rightarrow> (nat \<Rightarrow> bool) \<Rightarrow> bool ndarray \<Rightarrow> bool ndarray" where
  "thin_loop lut1 lut2 skel =
     (let skel' = subiteration lut2 (subiteration lut1 skel)
      in if n_pts skel' = n_pts skel then skel' else thin_loop lut1 lut2 skel')"
  by pat_completeness auto

definition thin :: "imglib \<Rightarrow> fl ndarray \<Rightarrow> error + bool ndarray" where
  "thin lib img =
     (case check_nD (Some img) of
        Inl e \<Rightarrow> Inl e
      | Inr a \<Rightarrow>
          Inr (thin_loop (g123_lut lib) (g123p_lut lib)
                 \<lparr>shape = shape a, elems = map (\<lambda>v. v \<noteq> Fin 0) (elems a)\<rparr>))"

definition extract_pil ::
  "imglib \<Rightarrow> PILDetector \<Rightarrow> bool \<Rightarrow> error + PILDetector \<times> pixmap" where
  "extract_pil lib self thinning =
     (case detect_edges lib self 1 of
        Inl e \<Rightarrow> Inl e
      | Inr (pos_edges, neg_edges) \<Rightarrow>
          let dil_pos = dilate_edges lib pos_edges 6;
              dil_neg = dilate_edges lib neg_edges 6;
              pil_mask = \<lparr>shape = shape (data self),
                          elems = map (\<lambda>v. \<not> is_nan v) (elems (data self))\<rparr>
          in case logical_and dil_pos dil_neg of
               Inl e \<Rightarrow> Inl e
             | Inr both \<Rightarrow>
                 (case logical_and both pil_mask of
                    Inl e \<Rightarrow> Inl e
                  | Inr m \<Rightarrow>
                      let pil_indices = np_where (elems m);
                          pil = put (np_zeros (shape (data self))) pil_indices (Fin 1)
                      in if thinning then
                           (case thin lib pil of
                              Inl e \<Rightarrow> Inl e
                            | Inr t \<Rightarrow> Inr (self\<lparr>pil_map := Some (BoolMap t)\<rparr>, BoolMap t))
                         else Inr (self\<lparr>pil_map := Some (FloatMap pil)\<rparr>, FloatMap pil)))"

subsection \<open>Notions used in the statements\<close>

text \<open>
  The array that is thresholded, the number of set pixels of a polarity map, and
  image routines that return an array of the shape of their argument.
\<close>

definition smoothed :: "imglib \<Rightarrow> PILDetector \<Rightarrow> bool \<Rightarrow> real \<Rightarrow> fl ndarray" where
  "smoothed lib self apply_gaussian sigma =
     (if apply_gaussian then gaussian_filter lib (data self) sigma else data self)"

definition count_nonzero :: "fl ndarray \<Rightarrow> nat" where
  "count_nonzero a = length (filter (\<lambda>v. v \<noteq> Fin 0) (elems a))"

definition preserves_shape :: "imglib \<Rightarrow> bool" where
  "preserves_shape lib =
     ((\<forall>a s. shape (gaussian_filter lib a s) = shape a) \<and>
      (\<forall>a s. shape (canny lib a s) = shape a) \<and>
      (\<forall>a n. shape (dilation lib a n) = shape a))"

section \<open>Concrete inputs\<close>

text \<open>
  A volume of \<open>2 \<times> 2 \<times> nz\<close> grid points whose horizontal magnitude at height index
  \<open>k\<close> is \<open>g k\<close> in every column, with \<open>bx\<close> carrying the magnitude and \<open>by\<close>, \<open>bz\<close> zero;
  and the calculator built over it.
\<close>

definition column_array :: "nat \<Rightarrow> (nat \<Rightarrow> fl) \<Rightarrow> fl ndarray" where
  "column_array nz g = \<lparr>shape = [2, 2, nz], elems = map (\<lambda>m. g (m mod nz)) [0..<4 * nz]\<rparr>"

definition column_field :: "nat \<Rightarrow> (nat \<Rightarrow> fl) \<Rightarrow> field3d" where
  "column_field nz g =
     \<lparr>bx = column_array nz g, by_c = column_array nz (\<lambda>k. Fin 0),
      bz = column_array nz (\<lambda>k. Fin 0), bh = column_array nz g\<rparr>"

definition column_calculator :: "nat \<Rightarrow> (nat \<Rightarrow> fl) \<Rightarrow> real \<Rightarrow> calculator" where
  "column_calculator nz g gs =
     \<lparr>field = column_field nz g, dx = gs,
      bh_interpolator = \<lparr>grid = [2, 2, nz], vals = column_array nz g\<rparr>\<rparr>"

text \<open>
  The profile \<open>magnitude(z) = 100 * exp(-z/5)\<close> at the heights \<open>0 .. 49\<close>.
\<close>

definition exp_profile :: "nat \<Rightarrow> fl" where
  "exp_profile k = Fin (100 * exp (- real k / 5))"

definition exp_calculator :: "real \<Rightarrow> calculator" where
  "exp_calculator gs = column_calculator 50 exp_profile gs"

text \<open>
  The logarithm of the interpolated magnitude of that profile at the height \<open>k + t\<close>,
  and at the \<open>j\<close>-th of the hundred sampled heights \<open>49 * j / 99\<close>.
\<close>

definition lg :: "nat \<Rightarrow> real \<Rightarrow> real" where
  "lg k t = ln 100 - real k / 5 + ln (1 - t * (1 - exp (- 1 / 5)))"

definition scenario_log :: "nat \<Rightarrow> real" where
  "scenario_log j = lg (49 * j div 99) (real (49 * j mod 99) / 99)"

text \<open>
  A magnitude that is constant with height; a magnitude that vanishes at one grid
  height; a volume whose \<open>by\<close> array has another shape than the other three.
\<close>

definition constant_calculator :: calculator where
  "constant_calculator = column_calculator 2 (\<lambda>k. Fin 1) (72 / 100)"



definition mismatched_field :: field3d where
  "mismatched_field =
     (column_field 2 (\<lambda>k. Fin 1))\<lparr>by_c := \<lparr>shape = [3, 3, 3], elems = replicate 27 (Fin 0)\<rparr>\<rparr>"


text \<open>
  Image routines to run the detector with: no smoothing, every set pixel an edge, a
  dilation that spreads over the whole image, tables that delete nothing. And a
  magnetogram of \<open>2 \<times> 2\<close> pixels with one invalid pixel.
\<close>

definition spread_lib :: imglib where
  "spread_lib =
     \<lparr>gaussian_filter = (\<lambda>a s. a),
      canny = (\<lambda>a s. \<lparr>shape = shape a, elems = map (\<lambda>v. v \<noteq> Fin 0) (elems a)\<rparr>),
      dilation = (\<lambda>a n. \<lparr>shape = shape a, elems = map (\<lambda>b. list_ex (\<lambda>e. e) (elems a)) (elems a)\<rparr>),
      g123_lut = (\<lambda>n. False),
      g123p_lut = (\<lambda>n. False)\<rparr>"

definition sample_magnetogram :: "fl ndarray" where
  "sample_magnetogram = \<lparr>shape = [2, 2], elems = [Fin 150, NaN, Fin (- 150), Fin 0]\<rparr>"

definition sample_detector :: PILDetector where
  "sample_detector =
     identify_polarity_regions spread_lib (init_detector sample_magnetogram) 100 (- 100) False 3"

text \<open>
  A magnetogram of one dimension, and an empty one.
\<close>

definition line_magnetogram :: "fl ndarray" where
  "line_magnetogram = \<lparr>shape = [3], elems = [Fin 150, Fin (- 150), Fin 0]\<rparr>"

definition empty_magnetogram :: "fl ndarray" where
  "empty_magnetogram = \<lparr>shape = [0, 2], elems = []\<rparr>"

section \<open>Properties of the decay index\<close>

subsection \<open>Sampling, interpolation, gradient\<close>

lemma linspace_eq:
  assumes "2 \<le> n"
  shows "linspace exact a b (int n) = Inr (map (sample_height a b n) [0..<n])"
proof -
  let ?d = "real_of_int (int n - 1)"
  let ?y = "map (\<lambda>v. v + a)
              (map (\<lambda>i. if 0 < int n - 1 then
                            (if (b - a) / ?d = 0 then real i / ?d * (b - a)
                             else real i * ((b - a) / ?d))
                         else real i * (b - a))
                 [0..<nat (int n)])"
  have ex: "\<And>r. exact r = r" by (simp add: exact_def)
  have e: "linspace exact a b (int n) = Inr (?y[nat (int n) - 1 := b])"
    unfolding linspace_def Let_def ex using assms by simp
  have r: "?d = real (n - 1)" using assms by (simp add: of_nat_diff)
  have "?y[nat (int n) - 1 := b] = map (sample_height a b n) [0..<n]"
  proof (rule nth_equalityI)
    show "length (?y[nat (int n) - 1 := b]) = length (map (sample_height a b n) [0..<n])" by simp
  next
    fix i assume "i < length (?y[nat (int n) - 1 := b])"
    then have i: "i < n" by simp
    show "?y[nat (int n) - 1 := b] ! i = map (sample_height a b n) [0..<n] ! i"
    proof (cases "i = n - 1")
      case True
      then show ?thesis using i assms by (simp add: sample_height_def)
    next
      case False
      then show ?thesis using i r assms by (simp add: sample_height_def add.commute)
    qed
  qed
  then show ?thesis using e by simp
qed



lemma sample_height_between:
  assumes "2 \<le> n" "i < n" "lo \<le> a" "a \<le> hi" "lo \<le> b" "b \<le> hi"
  shows "lo \<le> sample_height a b n i \<and> sample_height a b n i \<le> hi"
proof -
  define t where "t = real i / real (n - 1)"
  have t: "0 \<le> t" "t \<le> 1" using assms(1,2) by (auto simp: t_def)
  have eq: "sample_height a b n i = (1 - t) * a + t * b"
    by (simp add: sample_height_def t_def algebra_simps diff_divide_distrib)
  have "(1 - t) * lo + t * lo \<le> (1 - t) * a + t * b"
    using t assms(3,5) by (intro add_mono mult_left_mono) auto
  moreover have "(1 - t) * a + t * b \<le> (1 - t) * hi + t * hi"
    using t assms(4,6) by (intro add_mono mult_left_mono) auto
  ultimately show ?thesis unfolding eq by (simp add: algebra_simps)
qed

lemma gradient_uniform:
  assumes "2 \<le> n" "length f = n"
  shows "gradient exact f (map (\<lambda>i. a + real i * h) [0..<n])
         = Inr (map (central_gradient (\<lambda>i. f ! i) h n) [0..<n])"
proof -
  let ?z = "map (\<lambda>i. a + real i * h) [0..<n]"
  let ?d = "map (\<lambda>i. ?z ! (i + 1) - ?z ! i) [0..<n - 1]"
  have d: "?d = map (\<lambda>i. h) [0..<n - 1]"
    by (rule map_cong) (auto simp: algebra_simps)
  have d0: "?d ! 0 = h" "?d ! (n - 2) = h" using assms(1) unfolding d by auto
  have u: "list_all (\<lambda>x. x = ?d ! 0) ?d" unfolding d0 unfolding d by (simp add: list_all_iff)
  show ?thesis
    unfolding gradient_def exact_def Let_def using assms u d0
    by (auto simp: central_gradient_def)
qed

lemma init_calculator_Inr:
  assumes "init_calculator fld gs = Inr c"
  shows "field c = fld \<and> dx c = gs \<and> grid (bh_interpolator c) = shape (bx fld) \<and>
         vals (bh_interpolator c) = bh fld \<and> length (shape (bx fld)) = 3 \<and>
         take 3 (shape (bh fld)) = shape (bx fld)"
  using assms
  by (auto simp: init_calculator_def setup_interpolators_def RegularGridInterpolator_def
           numeral_3_eq_3 split: sum.splits list.splits if_splits)

lemma in_bounds_iff: "in_bounds n ps \<longleftrightarrow> (\<forall>p\<in>set ps. 0 \<le> p \<and> p \<le> real n - 1)"
  by (auto simp: in_bounds_def list_all_iff)

lemma calculate_decay_index_eq:
  assumes c: "init_calculator fld gs = Inr c"
      and n: "2 \<le> n"
      and q: "query_in_grid c x y (z_range_of c z_range)"
  shows "calculate_decay_index exact c x y z_range (int n)
         = Inr (map (profile_entry c x y (z_range_of c z_range) n) [0..<n])"
proof -
  note ci = init_calculator_Inr[OF c]
  obtain nx ny nz where sh: "shape (bh fld) = [nx, ny, nz]"
    using q ci by (auto simp: query_in_grid_def split: list.splits)
  define zr where "zr = z_range_of c z_range"
  have zr: "(case z_range of None \<Rightarrow> (0, real_of_int (int (shape (bh (field c)) ! 2) - 1)) | Some r \<Rightarrow> r) = zr"
    by (simp add: zr_def z_range_of_def split: option.splits)
  have qb: "0 \<le> x" "x \<le> real nx - 1" "0 \<le> y" "y \<le> real ny - 1"
     "0 \<le> fst zr" "fst zr \<le> real nz - 1" "0 \<le> snd zr" "snd zr \<le> real nz - 1"
    using q ci sh by (auto simp: query_in_grid_def zr_def)
  have pos: "nx \<noteq> 0" "ny \<noteq> 0" "nz \<noteq> 0" using qb by auto
  let ?zs = "map (sample_height (fst zr) (snd zr) n) [0..<n]"
  have lin: "linspace exact (fst zr) (snd zr) (int n) = Inr ?zs" by (rule linspace_eq[OF n])
  have g: "grid (bh_interpolator c) = [nx, ny, nz]" using ci sh by simp
  have bz: "in_bounds nz ?zs"
    using sample_height_between[OF n _ qb(5) qb(6) qb(7) qb(8)] by (auto simp: in_bounds_iff)
  have call: "rgi_call (bh_interpolator c) (map (\<lambda>zi. (x, y, zi)) ?zs)
      = Inr (map (evaluate_linear (bh_interpolator c)) (map (\<lambda>zi. (x, y, zi)) ?zs))"
    using g pos qb(1-4) bz by (simp add: rgi_call_def in_bounds_iff comp_def)
  have zs': "?zs = map (\<lambda>i. fst zr + real i * ((snd zr - fst zr) / real (n - 1))) [0..<n]"
    by (simp add: sample_height_def)
  let ?f = "map flog (map (evaluate_linear (bh_interpolator c)) (map (\<lambda>zi. (x, y, zi)) ?zs))"
  have lf: "length ?f = n" by simp
  have gr: "gradient exact ?f ?zs = Inr (map (central_gradient (\<lambda>i. ?f ! i) ((snd zr - fst zr) / real (n - 1)) n) [0..<n])"
    unfolding zs' by (rule gradient_uniform[OF n]) simp
  have nd: "length (shape (vals (bh_interpolator c))) = 3" using ci sh by simp
  have fi: "\<And>k. k < n \<Longrightarrow> ?f ! k = log_magnitude c x y (sample_height (fst zr) (snd zr) n k)"
    by (simp add: log_magnitude_def)
  have cg: "\<And>i. i < n \<Longrightarrow> central_gradient (\<lambda>i. ?f ! i) ((snd zr - fst zr) / real (n - 1)) n i
       = central_gradient (\<lambda>k. log_magnitude c x y (sample_height (fst zr) (snd zr) n k)) ((snd zr - fst zr) / real (n - 1)) n i"
    using n fi unfolding central_gradient_def by auto
  have "calculate_decay_index exact c x y z_range (int n)
      = Inr (map2 (\<lambda>zi d. fmul (Fin (- zi)) d) ?zs 
            (map (central_gradient (\<lambda>i. ?f ! i) ((snd zr - fst zr) / real (n - 1)) n) [0..<n]))"
    unfolding calculate_decay_index_def zr Let_def lin sum.case call
    using nd gr by simp
  also have "map2 (\<lambda>zi d. fmul (Fin (- zi)) d) ?zs 
            (map (central_gradient (\<lambda>i. ?f ! i) ((snd zr - fst zr) / real (n - 1)) n) [0..<n])
     = map (profile_entry c x y zr n) [0..<n]"
    by (rule nth_equalityI) (use cg in \<open>auto simp: profile_entry_def\<close>)
  finally show ?thesis by (simp add: zr_def)
qed

subsection \<open>The gradient on rounded heights\<close>









subsection \<open>The critical height\<close>

lemma filter_upt_first:
  assumes "k < n" "P k" "\<forall>i<k. \<not> P i"
  shows "filter P [0..<n] ! 0 = k"
proof -
  have "[0..<n] = [0..<k] @ k # [Suc k..<n]" using assms(1)
    by (metis le_add2 le_add_same_cancel2 less_imp_add_positive upt_add_eq_append upt_conv_Cons)
  moreover have "filter P [0..<k] = []" using assms(3) by (auto simp: filter_empty_conv)
  ultimately show ?thesis using assms(2) by simp
qed

lemma filter_upt_last:
  assumes "k < n" "P k" "\<forall>i<n. k < i \<longrightarrow> \<not> P i"
  shows "last (filter P [0..<n]) = k"
proof -
  have "[0..<n] = [0..<k] @ k # [Suc k..<n]" using assms(1)
    by (metis le_add2 le_add_same_cancel2 less_imp_add_positive upt_add_eq_append upt_conv_Cons)
  moreover have "filter P [Suc k..<n] = []" using assms(3) by (auto simp: filter_empty_conv)
  ultimately show ?thesis using assms(2) by simp
qed

lemma find_critical_height_eq:
  assumes "calculate_decay_index rnd c x y None 100 = Inr di"
      and "first < length di" "in_band critical_index uncertainty (di ! first)"
      and "\<forall>i<first. \<not> in_band critical_index uncertainty (di ! i)"
      and "lst < length di" "in_band critical_index uncertainty (di ! lst)"
      and "\<forall>i<length di. lst < i \<longrightarrow> \<not> in_band critical_index uncertainty (di ! i)"
  shows "find_critical_height rnd c x y critical_index uncertainty =
          Inr \<lparr>decay_index = di, critical_height = Fin (real first * dx c), 
               critical_height_range = (Fin (real first * dx c - uncertainty * dx c), 
                                        Fin (real lst * dx c + uncertainty * dx c))\<rparr>"
proof -
  let ?P = "\<lambda>i. in_band critical_index uncertainty (di ! i)"
  have f: "filter ?P [0..<length di] ! 0 = first" using assms by (intro filter_upt_first) auto
  have l: "last (filter ?P [0..<length di]) = lst" using assms by (intro filter_upt_last) auto
  have ne: "filter ?P [0..<length di] \<noteq> []" using assms(2,3) by (auto simp: filter_empty_conv)
  show ?thesis using assms(1,2,5) f l ne
    by (simp add: find_critical_height_def cross_points_def Let_def)
qed

lemma in_band_Fin: "in_band ci u (Fin v) \<longleftrightarrow> ci - u \<le> v \<and> v \<le> ci + u"
  by (simp add: in_band_def)

subsection \<open>Column volumes\<close>

lemma init_column_calculator:
  "init_calculator (column_field nz g) gs = Inr (column_calculator nz g gs)"
  by (simp add: init_calculator_def setup_interpolators_def RegularGridInterpolator_def
      column_field_def column_array_def column_calculator_def)

lemma length_filter_less_upt: "length (filter (\<lambda>g. g < m) [0..<n]) = min m n"
  by (induction n) auto

lemma searchsorted_eq:
  assumes "0 \<le> x"
  shows "searchsorted n x = min (nat \<lceil>x\<rceil>) n"
proof -
  have "\<And>g::nat. real g < x \<longleftrightarrow> g < nat \<lceil>x\<rceil>"
    using assms by (metis less_ceiling_iff nat_less_iff of_int_of_nat_eq zero_le_ceiling zless_nat_eq_int_zless)
  then show ?thesis by (simp add: searchsorted_def length_filter_less_upt)
qed

lemma find_indices_eq:
  assumes "2 \<le> n" "0 \<le> x" "x \<le> real n - 1"
  shows "find_indices n x = (max 0 (\<lceil>x\<rceil> - 1), x - real_of_int (max 0 (\<lceil>x\<rceil> - 1)))"
proof -
  have "x \<le> of_int (int n - 1)" using assms(3) by simp
  then have c: "\<lceil>x\<rceil> \<le> int n - 1" by (rule ceiling_le)
  have c0: "0 \<le> \<lceil>x\<rceil>" using assms(2) by simp
  have "nat \<lceil>x\<rceil> \<le> n" using c by linarith
  then have "searchsorted n x = nat \<lceil>x\<rceil>" by (simp add: searchsorted_eq[OF assms(2)])
  then have s: "int (searchsorted n x) = \<lceil>x\<rceil>" using c0 by linarith
  define i where "i = max 0 (\<lceil>x\<rceil> - 1)"
  have i: "0 \<le> i" "i \<le> int n - 2" using c assms(1) by (auto simp: i_def)
  have p: "real (py_index n i) = real_of_int i" "real (py_index n (i + 1)) = real_of_int i + 1"
    using i by (auto simp: py_index_def)
  show ?thesis unfolding find_indices_def s Let_def
    using i p unfolding i_def[symmetric] by (auto simp: i_def max_def)
qed

lemma at3_column:
  assumes "i \<in> {0, 1}" "j \<in> {0, 1}" "0 \<le> k" "k < int nz"
  shows "at3 (column_array nz g) i j k = g (nat k)"
proof -
  have "(py_index 2 i * 2 + py_index 2 j) * nz + py_index nz k < 4 * nz"
  proof -
    have "py_index 2 i \<le> 1" "py_index 2 j \<le> 1" "py_index nz k < nz" 
      using assms by (auto simp: py_index_def)
    then have "(py_index 2 i * 2 + py_index 2 j) * nz + py_index nz k < 3 * nz + nz"
      by (intro add_le_less_mono mult_right_mono) auto
    then show ?thesis by simp
  qed
  moreover have "((py_index 2 i * 2 + py_index 2 j) * nz + py_index nz k) mod nz = nat k"
    using assms by (simp add: py_index_def)
  ultimately show ?thesis by (simp add: at3_def column_array_def)
qed

lemma find_indices_0: "2 \<le> n \<Longrightarrow> find_indices n 0 = (0, 0)"
  using find_indices_eq[of n 0] by simp

lemma evaluate_linear_column:
  assumes n: "2 \<le> nz" and z: "0 \<le> z" "z \<le> real nz - 1"
  shows "evaluate_linear \<lparr>grid = [2, 2, nz], vals = column_array nz (\<lambda>k. Fin (m k))\<rparr> (0, 0, z)
         = (let k = nat (max 0 (\<lceil>z\<rceil> - 1)); t = z - real k
            in Fin ((1 - t) * m k + t * m (k + 1)))"
proof -
  define k where "k = max 0 (\<lceil>z\<rceil> - 1)"
  have "z \<le> of_int (int nz - 1)" using z(2) by simp
  then have c: "\<lceil>z\<rceil> \<le> int nz - 1" by (rule ceiling_le)
  have k: "0 \<le> k" "k + 1 < int nz" using c n by (auto simp: k_def)
  have fi: "find_indices nz z = (k, z - real_of_int k)" 
    using find_indices_eq[OF n z] by (simp add: k_def)
  have a: "\<And>i j. i \<in> {0,1} \<Longrightarrow> j \<in> {0,1} \<Longrightarrow> at3 (column_array nz (\<lambda>k. Fin (m k))) i j k = Fin (m (nat k))"
       "\<And>i j. i \<in> {0,1} \<Longrightarrow> j \<in> {0,1} \<Longrightarrow> at3 (column_array nz (\<lambda>k. Fin (m k))) i j (k + 1) = Fin (m (nat k + 1))"
    using k by (auto simp: at3_column nat_add_distrib)
  have rk: "real (nat k) = real_of_int k" using k by simp
  show ?thesis
    unfolding evaluate_linear_def
    by (simp add: find_indices_0 fi a k_def[symmetric] Let_def rk)
qed

lemma evaluate_linear_column_grid:
  assumes n: "2 \<le> nz" and k: "k < nz"
  shows "evaluate_linear \<lparr>grid = [2, 2, nz], vals = column_array nz (\<lambda>k. Fin (m k))\<rparr> (0, 0, real k)
         = Fin (m k)"
proof (cases k)
  case 0
  then show ?thesis using evaluate_linear_column[OF n, of 0 m] n by simp
next
  case (Suc j)
  have "\<lceil>real k\<rceil> = int k" by (rule ceiling_of_nat)
  then have "nat (max 0 (\<lceil>real k\<rceil> - 1)) = j" using Suc by simp
  then show ?thesis using evaluate_linear_column[OF n, of "real k" m] k Suc
    by (simp add: Let_def)
qed

lemma evaluate_linear_column_repr:
  assumes n: "2 \<le> nz" and z: "z = real k + t" "0 \<le> t" "t \<le> 1" "z \<le> real nz - 1"
  shows "evaluate_linear \<lparr>grid = [2, 2, nz], vals = column_array nz (\<lambda>k. Fin (m k))\<rparr> (0, 0, z)
         = Fin ((1 - t) * m k + t * m (k + 1))"
proof -
  have z0: "0 \<le> z" using z by simp
  note ev = evaluate_linear_column[OF n z0 z(4), of m]
  show ?thesis
  proof (cases "t = 0")
    case True
    then have zk: "z = real k" using z by simp
    have "k < nz" using z(4) zk n by linarith
    then show ?thesis using evaluate_linear_column_grid[OF n, of k m] zk True by simp
  next
    case False
    then have t: "0 < t" using z(2) by simp
    have "\<lceil>z\<rceil> = int k + 1"
    proof (rule ceiling_unique)
      show "real_of_int (int k + 1) - 1 < z" using t z(1) by simp
      show "z \<le> real_of_int (int k + 1)" using z(1,3) by simp
    qed
    then have "nat (max 0 (\<lceil>z\<rceil> - 1)) = k" by simp
    then show ?thesis using ev z(1) by (simp add: Let_def)
  qed
qed

subsection \<open>The exponential profile\<close>

lemma E_bounds: "4 / 5 \<le> exp (- 1 / 5 :: real)" "exp (- 1 / 5 :: real) \<le> 5 / 6"
proof -
  show "4 / 5 \<le> exp (- 1 / 5 :: real)" using exp_ge_add_one_self[of "- 1 / 5 :: real"] by simp
  have "1 + 1 / 5 \<le> exp (1 / 5 :: real)" by (rule exp_ge_add_one_self)
  then have "inverse (exp (1 / 5 :: real)) \<le> inverse (6 / 5)"
    by (intro le_imp_inverse_le) auto
  then show "exp (- 1 / 5 :: real) \<le> 5 / 6"
    by (simp add: exp_minus[symmetric])
qed

lemma c_bounds: "1 / 6 \<le> 1 - exp (- 1 / 5 :: real)" "1 - exp (- 1 / 5 :: real) \<le> 1 / 5"
  using E_bounds by auto

lemma scenario_log_magnitude:
  assumes z: "z = real k + t" "0 \<le> t" "t \<le> 1" "z \<le> 49"
  shows "log_magnitude (exp_calculator gs) 0 0 z = Fin (lg k t)"
proof -
  let ?E = "exp (- 1 / 5 :: real)"
  let ?m = "\<lambda>k. 100 * exp (- real k / 5)"
  have mk: "\<And>j. ?m j = 100 * ?E ^ j"
  proof -
    fix j :: nat
    have "exp (- real j / 5) = exp (real j * (- 1 / 5))" by simp
    also have "\<dots> = ?E ^ j" by (rule exp_of_nat_mult)
    finally show "?m j = 100 * ?E ^ j" by simp
  qed
  have ev: "evaluate_linear (bh_interpolator (exp_calculator gs)) (0, 0, z)
        = Fin ((1 - t) * ?m k + t * ?m (k + 1))"
    unfolding exp_calculator_def column_calculator_def exp_profile_def
    using evaluate_linear_column_repr[of 50 z k t ?m] z by simp
  have val: "(1 - t) * ?m k + t * ?m (k + 1) = 100 * ?E ^ k * (1 - t * (1 - ?E))"
    unfolding mk by (simp add: algebra_simps)
  have tc: "t * (1 - ?E) \<le> 1 * (1 / 5)"
    using z(2,3) c_bounds by (intro mult_mono) auto
  then have p1: "0 < 1 - t * (1 - ?E)" by simp
  have pE: "0 < ?E ^ k" by simp
  have "ln (100 * ?E ^ k * (1 - t * (1 - ?E))) = ln (100 * ?E ^ k) + ln (1 - t * (1 - ?E))"
    using p1 pE by (intro ln_mult_pos) auto
  also have "ln (100 * ?E ^ k) = ln 100 + ln (?E ^ k)"
    using pE by (intro ln_mult_pos) auto
  also have "ln (?E ^ k) = real k * ln ?E" by (simp add: ln_realpow)
  also have "ln ?E = - 1 / 5" by simp
  finally have l: "ln (100 * ?E ^ k * (1 - t * (1 - ?E))) = lg k t"
    by (simp add: lg_def)
  have "0 < 100 * ?E ^ k * (1 - t * (1 - ?E))" using p1 pE by simp
  then show ?thesis unfolding log_magnitude_def ev val using l by simp
qed

lemma scenario_sample_height: "sample_height 0 49 100 j = real (49 * j) / 99"
  by (simp add: sample_height_def)

lemma scenario_log_sample:
  assumes "j \<le> 99"
  shows "log_magnitude (exp_calculator gs) 0 0 (sample_height 0 49 100 j) = Fin (scenario_log j)"
proof -
  have "real (49 * j) = real (99 * (49 * j div 99) + 49 * j mod 99)" by simp
  also have "\<dots> = 99 * real (49 * j div 99) + real (49 * j mod 99)"
    by (simp only: of_nat_add of_nat_mult of_nat_numeral)
  finally have "real (49 * j) / 99 = real (49 * j div 99) + real (49 * j mod 99) / 99"
    by (simp add: add_divide_distrib)
  moreover have "real (49 * j mod 99) / 99 \<le> 1" by simp
  moreover have "real (49 * j) / 99 \<le> 49" using assms by simp
  ultimately show ?thesis
    unfolding scenario_log_def scenario_sample_height
    by (intro scenario_log_magnitude) auto
qed

lemma mod99_pos: 
  assumes a: "2 \<le> i" "i \<le> 98"
  shows "1 \<le> 49 * (i - 1) mod (99::nat)"
proof -
  have cp: "coprime (99::nat) 49" by (simp add: coprime_iff_gcd_eq_1 gcd_non_0_nat)
  have "\<not> (99::nat) dvd 49 * (i - 1)"
  proof
    assume "(99::nat) dvd 49 * (i - 1)"
    then have "(99::nat) dvd (i - 1)" using cp by (simp add: coprime_dvd_mult_right_iff)
    then have "99 \<le> i - 1" using a by (intro dvd_imp_le) auto
    then show False using a by simp
  qed
  then have "49 * (i - 1) mod (99::nat) \<noteq> 0" by (simp add: dvd_eq_mod_eq_0)
  then show ?thesis by simp
qed

lemma divmod99_step:
  fixes i k r :: nat
  assumes "2 \<le> i" "1 \<le> r" "r < 99" "49 * (i - 1) = 99 * k + r"
  shows "49 * (i + 1) div 99 = k + 1" "49 * (i + 1) mod 99 = r - 1"
proof -
  have "49 * (i + 1) = 49 * (i - 1) + 98" using assms(1) by simp
  also have "\<dots> = (r - 1) + (k + 1) * 99" using assms(2,4) by simp
  finally have e: "49 * (i + 1) = (r - 1) + (k + 1) * 99" .
  show "49 * (i + 1) div 99 = k + 1" unfolding e using assms(3) by simp
  have "(r - 1 + (k + 1) * 99) mod 99 = (r - 1) mod 99" by (rule mod_mult_self1)
  also have "\<dots> = r - 1" using assms(3) by simp
  finally show "49 * (i + 1) mod 99 = r - 1" unfolding e .
qed

lemma lg_diff_bounds:
  assumes "1 / 99 \<le> t" "t \<le> 1"
  shows "197 / 1000 \<le> lg k t - lg (k + 1) (t - 1 / 99)"
    and "lg k t - lg (k + 1) (t - 1 / 99) < 1 / 5"
proof -
  let ?c = "1 - exp (- 1 / 5 :: real)"
  define a where "a = 1 - t * ?c"
  define b where "b = 1 - (t - 1 / 99) * ?c"
  have tc: "t * ?c \<le> 1 * (1 / 5)" using assms c_bounds by (intro mult_mono) auto
  have a: "4 / 5 \<le> a" using tc by (simp add: a_def)
  have ba: "b = a + ?c / 99" by (simp add: a_def b_def algebra_simps)
  have ab: "a < b" using c_bounds unfolding ba by simp
  have apos: "0 < a" "0 < b" using a ab by auto
  have d: "lg k t - lg (k + 1) (t - 1 / 99) = 1 / 5 - (ln b - ln a)"
    by (simp add: lg_def a_def b_def add_divide_distrib)
  have "ln a < ln b" using ab apos by simp
  then show "lg k t - lg (k + 1) (t - 1 / 99) < 1 / 5" unfolding d by simp
  have "ln b - ln a = ln (b / a)" using apos by (simp add: ln_div)
  also have "\<dots> \<le> b / a - 1" using apos by (intro ln_le_minus_one) simp
  also have "b / a - 1 = (?c / 99) / a" using apos unfolding ba by (simp add: field_simps)
  also have "\<dots> \<le> ((1 / 5) / 99) / (4 / 5)"
    using c_bounds a by (intro frac_le) auto
  finally have "ln b - ln a \<le> 3 / 1000" by simp
  then show "197 / 1000 \<le> lg k t - lg (k + 1) (t - 1 / 99)" unfolding d by simp
qed

lemma scenario_log_step:
  assumes "2 \<le> i" "i \<le> 98"
  shows "197 / 1000 \<le> scenario_log (i - 1) - scenario_log (i + 1)"
    and "scenario_log (i - 1) - scenario_log (i + 1) < 1 / 5"
proof -
  define k where "k = 49 * (i - 1) div 99"
  define r where "r = 49 * (i - 1) mod 99"
  have r1: "1 \<le> r" unfolding r_def by (rule mod99_pos[OF assms])
  have r99': "r < 99" unfolding r_def by simp
  have kr: "49 * (i - 1) = 99 * k + r" unfolding k_def r_def by simp
  have dv: "49 * (i + 1) div 99 = k + 1" by (rule divmod99_step[OF assms(1) r1 r99' kr])
  have md: "49 * (i + 1) mod 99 = r - 1" by (rule divmod99_step[OF assms(1) r1 r99' kr])
  have t: "real (r - 1) / 99 = real r / 99 - 1 / 99" using r1 by (simp add: of_nat_diff diff_divide_distrib)
  have r99: "r < 99" unfolding r_def by simp
  have b: "1 / 99 \<le> real r / 99" "real r / 99 \<le> 1" using r1 r99 by auto
  have e: "scenario_log (i - 1) - scenario_log (i + 1)
      = lg k (real r / 99) - lg (k + 1) (real r / 99 - 1 / 99)"
  proof -
    have "scenario_log (i - 1) = lg k (real r / 99)" by (simp add: scenario_log_def k_def r_def)
    moreover have "scenario_log (i + 1) = lg (k + 1) (real r / 99 - 1 / 99)"
      unfolding scenario_log_def dv md t ..
    ultimately show ?thesis by simp
  qed
  show "197 / 1000 \<le> scenario_log (i - 1) - scenario_log (i + 1)"
    unfolding e by (rule lg_diff_bounds[OF b])
  show "scenario_log (i - 1) - scenario_log (i + 1) < 1 / 5"
    unfolding e by (rule lg_diff_bounds[OF b])
qed

lemma scenario_profile:
  "calculate_decay_index exact (exp_calculator gs) 0 0 None 100
   = Inr (map (profile_entry (exp_calculator gs) 0 0 (0, 49) 100) [0..<100])"
proof -
  have i: "init_calculator (column_field 50 exp_profile) gs = Inr (exp_calculator gs)"
    unfolding exp_calculator_def by (rule init_column_calculator)
  have z: "z_range_of (exp_calculator gs) None = (0, 49)"
    by (simp add: z_range_of_def exp_calculator_def column_calculator_def
        column_field_def column_array_def)
  have q: "query_in_grid (exp_calculator gs) 0 0 (z_range_of (exp_calculator gs) None)"
    unfolding z
    by (simp add: query_in_grid_def exp_calculator_def column_calculator_def
        column_field_def column_array_def)
  have "calculate_decay_index exact (exp_calculator gs) 0 0 None (int 100)
     = Inr (map (profile_entry (exp_calculator gs) 0 0 (z_range_of (exp_calculator gs) None) 100) [0..<100])"
    by (rule calculate_decay_index_eq[OF i _ q]) simp
  then show ?thesis unfolding z by simp
qed

lemma scenario_entry_0: "profile_entry (exp_calculator gs) 0 0 (0, 49) 100 0 = Fin 0"
proof -
  have "central_gradient (\<lambda>k. log_magnitude (exp_calculator gs) 0 0 (sample_height 0 49 100 k))
          (49 / 99) 100 0
        = fdiv (fsub (Fin (scenario_log 1)) (Fin (scenario_log 0))) (Fin (49 / 99))"
    by (simp add: central_gradient_def scenario_log_sample)
  then have "profile_entry (exp_calculator gs) 0 0 (0, 49) 100 0
      = fmul (Fin (- sample_height 0 49 100 0))
          (fdiv (fsub (Fin (scenario_log 1)) (Fin (scenario_log 0))) (Fin (49 / 99)))"
    by (simp add: profile_entry_def)
  then show ?thesis by (simp add: fsub_def scenario_sample_height)
qed

lemma scenario_entry_interior:
  assumes "1 \<le> i" "i \<le> 98"
  shows "profile_entry (exp_calculator gs) 0 0 (0, 49) 100 i
         = Fin (real i / 2 * (scenario_log (i - 1) - scenario_log (i + 1)))"
proof -
  have "central_gradient (\<lambda>k. log_magnitude (exp_calculator gs) 0 0 (sample_height 0 49 100 k))
          (49 / 99) 100 i
        = fdiv (fsub (Fin (scenario_log (i + 1))) (Fin (scenario_log (i - 1)))) (Fin (2 * (49 / 99)))"
    using assms by (simp add: central_gradient_def scenario_log_sample)
  then have "profile_entry (exp_calculator gs) 0 0 (0, 49) 100 i
      = fmul (Fin (- sample_height 0 49 100 i))
          (fdiv (fsub (Fin (scenario_log (i + 1))) (Fin (scenario_log (i - 1)))) (Fin (2 * (49 / 99))))"
    by (simp add: profile_entry_def)
  then show ?thesis by (simp add: fsub_def scenario_sample_height field_simps)
qed

lemma scenario_entry_99:
  "profile_entry (exp_calculator gs) 0 0 (0, 49) 100 99
   = Fin (99 * (scenario_log 98 - scenario_log 99))"
proof -
  have "central_gradient (\<lambda>k. log_magnitude (exp_calculator gs) 0 0 (sample_height 0 49 100 k))
          (49 / 99) 100 99
        = fdiv (fsub (Fin (scenario_log 99)) (Fin (scenario_log 98))) (Fin (49 / 99))"
    by (simp add: central_gradient_def scenario_log_sample)
  then have "profile_entry (exp_calculator gs) 0 0 (0, 49) 100 99
      = fmul (Fin (- sample_height 0 49 100 99))
          (fdiv (fsub (Fin (scenario_log 99)) (Fin (scenario_log 98))) (Fin (49 / 99)))"
    by (simp add: profile_entry_def)
  then show ?thesis by (simp add: fsub_def scenario_sample_height field_simps)
qed

lemma scenario_entry_1_bound: "scenario_log 0 - scenario_log 2 \<le> 1 / 4"
proof -
  let ?c = "1 - exp (- 1 / 5 :: real)"
  define a where "a = 1 - (98 / 99) * ?c"
  have "(98 / 99) * ?c \<le> 1 * (1 / 5)" using c_bounds by (intro mult_mono) auto
  then have a: "4 / 5 \<le> a" by (simp add: a_def)
  then have apos: "0 < a" by simp
  have e: "scenario_log 0 - scenario_log 2 = - ln a"
    by (simp add: scenario_log_def lg_def a_def)
  have "- ln a = ln (1 / a)" using apos by (simp add: ln_div)
  also have "\<dots> \<le> 1 / a - 1" using apos by (intro ln_le_minus_one) simp
  also have "\<dots> \<le> 1 / (4 / 5) - 1" using a by (intro diff_right_mono frac_le) auto
  finally show ?thesis unfolding e by simp
qed

lemma scenario_entry_99_bound: "2 / 25 \<le> scenario_log 98 - scenario_log 99"
proof -
  let ?c = "1 - exp (- 1 / 5 :: real)"
  define a where "a = 1 - (50 / 99) * ?c"
  have "(50 / 99) * ?c \<le> (50 / 99) * (1 / 5)" using c_bounds by (intro mult_mono) auto
  then have a: "89 / 99 \<le> a" by (simp add: a_def)
  then have apos: "0 < a" by simp
  have e: "scenario_log 98 - scenario_log 99 = 1 / 5 + ln a"
    by (simp add: scenario_log_def lg_def a_def)
  have "- ln a = ln (1 / a)" using apos by (simp add: ln_div)
  also have "\<dots> \<le> 1 / a - 1" using apos by (intro ln_le_minus_one) simp
  also have "\<dots> \<le> 1 / (89 / 99) - 1" using a by (intro diff_right_mono frac_le) auto
  finally have "- ln a \<le> 10 / 89" by simp
  then show ?thesis unfolding e by simp
qed

lemma scenario_band:
  assumes "i < 100"
  shows "in_band (3 / 2) (1 / 10) (profile_entry (exp_calculator gs) 0 0 (0, 49) 100 i)
         \<longleftrightarrow> i = 15 \<or> i = 16"
proof -
  consider "i = 0" | "i = 1" | "2 \<le> i" "i \<le> 98" | "i = 99" using assms by linarith
  then show ?thesis
  proof cases
    case 1
    then show ?thesis by (simp add: scenario_entry_0 in_band_Fin)
  next
    case 2
    have "profile_entry (exp_calculator gs) 0 0 (0, 49) 100 1
        = Fin (1 / 2 * (scenario_log 0 - scenario_log 2))"
      using scenario_entry_interior[of 1] by (simp add: numeral_2_eq_2)
    then show ?thesis using 2 scenario_entry_1_bound by (simp add: in_band_Fin)
  next
    case 3
    define D where "D = scenario_log (i - 1) - scenario_log (i + 1)"
    have D: "197 / 1000 \<le> D" "D < 1 / 5"
      unfolding D_def using scenario_log_step[OF 3] by auto
    have e: "profile_entry (exp_calculator gs) 0 0 (0, 49) 100 i = Fin (real i / 2 * D)"
      unfolding D_def using 3 by (intro scenario_entry_interior) auto
    consider "i \<le> 14" | "i = 15" | "i = 16" | "17 \<le> i" by linarith
    then show ?thesis
    proof cases
      case 1
      have "real i / 2 * D < 7 * (1 / 5)"
      proof -
        have "real i / 2 * D \<le> 7 * D" using 1 D(1) by (intro mult_right_mono) auto
        also have "\<dots> < 7 * (1 / 5)" using D(2) by simp
        finally show ?thesis .
      qed
      then show ?thesis using 1 unfolding e in_band_Fin by auto
    next
      case 2
      then show ?thesis using D unfolding e in_band_Fin by auto
    next
      case 3
      then show ?thesis using D unfolding e in_band_Fin by auto
    next
      case 4
      have "(17 / 2) * (197 / 1000) \<le> real i / 2 * D"
        using 4 D(1) by (intro mult_mono) auto
      then show ?thesis using 4 unfolding e in_band_Fin by auto
    qed
  next
    case 4
    then show ?thesis using scenario_entry_99_bound by (simp add: scenario_entry_99 in_band_Fin)
  qed
qed

lemma exp_critical_height:
  "find_critical_height exact (exp_calculator gs) 0 0 (3 / 2) (1 / 10)
   = Inr \<lparr>decay_index = map (profile_entry (exp_calculator gs) 0 0 (0, 49) 100) [0..<100],
          critical_height = Fin (15 * gs),
          critical_height_range = (Fin (15 * gs - (1 / 10) * gs), Fin (16 * gs + (1 / 10) * gs))\<rparr>"
proof -
  let ?di = "map (profile_entry (exp_calculator gs) 0 0 (0, 49) 100) [0..<100]"
  have b: "\<And>i. i < 100 \<Longrightarrow> in_band (3 / 2) (1 / 10) (?di ! i) \<longleftrightarrow> i = 15 \<or> i = 16"
    using scenario_band by simp
  have dx: "dx (exp_calculator gs) = gs"
    by (simp add: exp_calculator_def column_calculator_def)
  have "find_critical_height exact (exp_calculator gs) 0 0 (3 / 2) (1 / 10)
      = Inr \<lparr>decay_index = ?di, critical_height = Fin (real 15 * dx (exp_calculator gs)),
          critical_height_range =
            (Fin (real 15 * dx (exp_calculator gs) - (1 / 10) * dx (exp_calculator gs)),
             Fin (real 16 * dx (exp_calculator gs) + (1 / 10) * dx (exp_calculator gs)))\<rparr>"
    by (rule find_critical_height_eq[OF scenario_profile]) (use b in auto)
  then show ?thesis unfolding dx by simp
qed

lemma exp_cross_points:
  "cross_points (3 / 2) (1 / 10) (map (profile_entry (exp_calculator gs) 0 0 (0, 49) 100) [0..<100])
   = [15, 16]"
proof -
  let ?di = "map (profile_entry (exp_calculator gs) 0 0 (0, 49) 100) [0..<100]"
  have b: "\<And>i. i < 100 \<Longrightarrow> in_band (3 / 2) (1 / 10) (?di ! i) \<longleftrightarrow> i = 15 \<or> i = 16"
    using scenario_band by simp
  have "filter (\<lambda>i. in_band (3 / 2) (1 / 10) (?di ! i)) [0..<100]
      = filter (\<lambda>i. i = 15 \<or> i = 16) [0..<100]"
    by (rule filter_cong[OF refl]) (use b in simp)
  also have "\<dots> = [15, 16]" by (simp add: upt_rec)
  finally show ?thesis by (simp add: cross_points_def)
qed

subsection \<open>The constant and the vanishing magnitude\<close>

lemma constant_magnitude:
  assumes "0 \<le> z" "z \<le> 1"
  shows "evaluate_linear (bh_interpolator constant_calculator) (0, 0, z) = Fin 1"
  unfolding constant_calculator_def column_calculator_def
  using evaluate_linear_column_repr[of 2 z 0 z "\<lambda>k. 1"] assms by simp

lemma constant_profile:
  "calculate_decay_index exact constant_calculator 0 0 None 100 = Inr (map (\<lambda>i. Fin 0) [0..<100])"
proof -
  have i: "init_calculator (column_field 2 (\<lambda>k. Fin 1)) (72 / 100) = Inr constant_calculator"
    unfolding constant_calculator_def by (rule init_column_calculator)
  have z: "z_range_of constant_calculator None = (0, 1)"
    by (simp add: z_range_of_def constant_calculator_def column_calculator_def
        column_field_def column_array_def)
  have q: "query_in_grid constant_calculator 0 0 (z_range_of constant_calculator None)"
    unfolding z
    by (simp add: query_in_grid_def constant_calculator_def column_calculator_def
        column_field_def column_array_def)
  have "calculate_decay_index exact constant_calculator 0 0 None (int 100)
     = Inr (map (profile_entry constant_calculator 0 0 (z_range_of constant_calculator None) 100) [0..<100])"
    by (rule calculate_decay_index_eq[OF i _ q]) simp
  moreover have "map (profile_entry constant_calculator 0 0 (0, 1) 100) [0..<100] = map (\<lambda>i. Fin 0) [0..<100]"
  proof (rule map_cong[OF refl])
    fix i assume "i \<in> set [0..<100]"
    have b: "\<And>k. k < 100 \<Longrightarrow> 0 \<le> sample_height 0 1 100 k \<and> sample_height 0 1 100 k \<le> 1"
      by (rule sample_height_between) auto
    have l: "\<And>k. k < 100 \<Longrightarrow> log_magnitude constant_calculator 0 0 (sample_height 0 1 100 k) = Fin 0"
      using b by (simp add: log_magnitude_def constant_magnitude)
    have "central_gradient (\<lambda>k. log_magnitude constant_calculator 0 0 (sample_height 0 1 100 k))
          (1 / 99) 100 i = Fin 0"
      using \<open>i \<in> set [0..<100]\<close> by (auto simp: central_gradient_def l fsub_def)
    then show "profile_entry constant_calculator 0 0 (0, 1) 100 i = Fin 0"
      by (simp add: profile_entry_def)
  qed
  ultimately show ?thesis unfolding z by simp
qed



lemma upt_4: "[0..<4] = [0, 1, 2, 3]"
  by (simp add: upt_rec)









subsection \<open>Values that are not finite\<close>





section \<open>Properties of the detector\<close>

subsection \<open>Thinning only deletes\<close>

lemma count_true_mono:
  assumes "length xs = length ys" "\<And>k. k < length xs \<Longrightarrow> xs ! k \<Longrightarrow> ys ! k"
  shows "length (filter (\<lambda>b. b) xs) \<le> length (filter (\<lambda>b. b) ys)"
  using assms
proof (induction xs ys rule: list_induct2)
  case Nil
  then show ?case by simp
next
  case (Cons x xs y ys)
  have "length (filter (\<lambda>b. b) xs) \<le> length (filter (\<lambda>b. b) ys)"
    using Cons.prems[of "Suc k" for k] by (intro Cons.IH) auto
  moreover have "x \<Longrightarrow> y" using Cons.prems[of 0] by simp
  ultimately show ?case by auto
qed

lemma subiteration_elems:
  "length (elems (subiteration lut skel)) = length (elems skel)"
  "k < length (elems skel) \<Longrightarrow> elems (subiteration lut skel) ! k \<Longrightarrow> elems skel ! k"
  "shape (subiteration lut skel) = shape skel"
  by (auto simp: subiteration_def Let_def split: if_splits)

lemma n_pts_subiteration: "n_pts (subiteration lut skel) \<le> n_pts skel"
  unfolding n_pts_def by (rule count_true_mono) (auto simp: subiteration_elems)

termination thin_loop
proof (relation "measure (\<lambda>(lut1, lut2, skel). n_pts skel)")
  show "wf (measure (\<lambda>(lut1, lut2, skel). n_pts skel))" by simp
next
  fix lut1 lut2 :: "nat \<Rightarrow> bool" and skel x :: "bool ndarray"
  assume "x = subiteration lut2 (subiteration lut1 skel)" "n_pts x \<noteq> n_pts skel"
  moreover have "n_pts (subiteration lut2 (subiteration lut1 skel)) \<le> n_pts skel"
    using n_pts_subiteration[where lut = lut2 and skel = "subiteration lut1 skel"]
      n_pts_subiteration[where lut = lut1 and skel = skel]
    by simp
  ultimately show "((lut1, lut2, x), (lut1, lut2, skel)) \<in> measure (\<lambda>(lut1, lut2, skel). n_pts skel)"
    by simp
qed

declare thin_loop.simps [simp del]

lemma thin_loop_props:
  "shape (thin_loop l1 l2 skel) = shape skel \<and>
   length (elems (thin_loop l1 l2 skel)) = length (elems skel) \<and>
   (\<forall>k<length (elems skel). elems (thin_loop l1 l2 skel) ! k \<longrightarrow> elems skel ! k)"
proof (induction l1 l2 skel rule: thin_loop.induct)
  case (1 lut1 lut2 skel)
  define s' where "s' = subiteration lut2 (subiteration lut1 skel)"
  have s': "shape s' = shape skel" "length (elems s') = length (elems skel)"
    "\<And>k. k < length (elems skel) \<Longrightarrow> elems s' ! k \<Longrightarrow> elems skel ! k"
    unfolding s'_def using subiteration_elems[where lut = lut2 and skel = "subiteration lut1 skel"]
      subiteration_elems[where lut = lut1 and skel = skel] by auto
  show ?case
  proof (cases "n_pts s' = n_pts skel")
    case True
    then have "thin_loop lut1 lut2 skel = s'"
      by (subst thin_loop.simps) (simp add: s'_def Let_def)
    then show ?thesis using s' by auto
  next
    case False
    then have e: "thin_loop lut1 lut2 skel = thin_loop lut1 lut2 s'"
      by (subst thin_loop.simps) (simp add: s'_def Let_def)
    have ih: "shape (thin_loop lut1 lut2 s') = shape s' \<and>
       length (elems (thin_loop lut1 lut2 s')) = length (elems s') \<and>
       (\<forall>k<length (elems s'). elems (thin_loop lut1 lut2 s') ! k \<longrightarrow> elems s' ! k)"
      using "1.IH"[of s'] False s'_def by simp
    show ?thesis unfolding e using ih s' by auto
  qed
qed

subsection \<open>Thresholding and masking\<close>

lemma foldl_update_length: "length (foldl (\<lambda>xs i. xs[i := v]) xs idx) = length xs"
  by (induction idx arbitrary: xs) auto

lemma foldl_update_nth:
  "k < length xs \<Longrightarrow>
   foldl (\<lambda>xs i. xs[i := v]) xs idx ! k = (if k \<in> set idx then v else xs ! k)"
  by (induction idx arbitrary: xs) (auto simp: nth_list_update foldl_update_length)

lemma set_np_where: "set (np_where c) = {k. k < length c \<and> c ! k}"
  by (auto simp: np_where_def)

lemma put_zeros:
  "shape (put (np_zeros sh) (np_where c) (Fin 1)) = sh"
  "length (elems (put (np_zeros sh) (np_where c) (Fin 1))) = prod_list sh"
  "k < prod_list sh \<Longrightarrow>
   elems (put (np_zeros sh) (np_where c) (Fin 1)) ! k
     = (if k < length c \<and> c ! k then Fin 1 else Fin 0)"
  by (auto simp: put_def np_zeros_def foldl_update_length foldl_update_nth set_np_where)

lemma identify_polarity_regions_eq:
  "identify_polarity_regions lib self pos_thresh neg_thresh apply_gaussian sigma
   = self\<lparr>pos_map := Some (put (np_zeros (shape (smoothed lib self apply_gaussian sigma)))
              (np_where (map (\<lambda>v. fle (Fin pos_thresh) v) (elems (smoothed lib self apply_gaussian sigma)))) (Fin 1)),
          neg_map := Some (put (np_zeros (shape (smoothed lib self apply_gaussian sigma)))
              (np_where (map (\<lambda>v. fle v (Fin neg_thresh)) (elems (smoothed lib self apply_gaussian sigma)))) (Fin 1))\<rparr>"
  by (simp add: identify_polarity_regions_def smoothed_def Let_def)

lemma fle_trans_Fin: "a \<le> b \<Longrightarrow> fle (Fin b) v \<Longrightarrow> fle (Fin a) v"
  by (cases v) auto

lemma logical_and_Inr:
  assumes "logical_and a b = Inr m"
  shows "shape m = shape a" "shape a = shape b"
    "k < length (elems m) \<Longrightarrow> k < length (elems a) \<and> k < length (elems b) \<and>
       (elems m ! k \<longleftrightarrow> elems a ! k \<and> elems b ! k)"
  using assms by (auto simp: logical_and_def split: if_splits)

subsection \<open>The detector on the sample magnetogram\<close>

lemma replicate_4: "replicate 4 x = [x, x, x, x]"
  by (simp add: numeral_eq_Suc)

lemma nth_4: "[a, b, c, d] ! 0 = a" "[a, b, c, d] ! 1 = b" "[a, b, c, d] ! 2 = c" "[a, b, c, d] ! 3 = d"
  by (simp_all add: numeral_eq_Suc)

lemma upd_4: "[a, b, c, d][0 := v] = [v, b, c, d]" "[a, b, c, d][1 := v] = [a, v, c, d]"
   "[a, b, c, d][2 := v] = [a, b, v, d]" "[a, b, c, d][3 := v] = [a, b, c, v]"
  by (simp_all add: numeral_eq_Suc)

lemma sample_detector_eq:
  "sample_detector =
     \<lparr>data = sample_magnetogram,
      pos_map = Some \<lparr>shape = [2, 2], elems = [Fin 1, Fin 0, Fin 0, Fin 0]\<rparr>,
      neg_map = Some \<lparr>shape = [2, 2], elems = [Fin 0, Fin 0, Fin 1, Fin 0]\<rparr>,
      pil_map = None\<rparr>"
  by (simp add: sample_detector_def identify_polarity_regions_def init_detector_def
      sample_magnetogram_def np_where_def np_zeros_def put_def upt_4 Let_def
      replicate_4 nth_4 upd_4)

lemma subiteration_keep: "subiteration (\<lambda>n. False) skel = skel"
  by (simp add: subiteration_def map_nth)

lemma thin_loop_keep: "thin_loop (\<lambda>n. False) (\<lambda>n. False) skel = skel"
  by (subst thin_loop.simps) (simp add: subiteration_keep)

lemma sample_edges:
  "detect_edges spread_lib sample_detector 1
   = Inr (\<lparr>shape = [2, 2], elems = [True, False, False, False]\<rparr>,
          \<lparr>shape = [2, 2], elems = [False, False, True, False]\<rparr>)"
  by (simp add: sample_detector_eq detect_edges_def check_nD_def spread_lib_def)

lemma sample_dilate:
  "dilate_edges spread_lib \<lparr>shape = [2, 2], elems = [True, False, False, False]\<rparr> 6
   = \<lparr>shape = [2, 2], elems = [True, True, True, True]\<rparr>"
  "dilate_edges spread_lib \<lparr>shape = [2, 2], elems = [False, False, True, False]\<rparr> 6
   = \<lparr>shape = [2, 2], elems = [True, True, True, True]\<rparr>"
  by (simp_all add: dilate_edges_def spread_lib_def)

lemma sample_mask:
  "logical_and \<lparr>shape = [2, 2], elems = [True, True, True, True]\<rparr>
     \<lparr>shape = [2, 2], elems = [True, True, True, True]\<rparr>
   = Inr \<lparr>shape = [2, 2], elems = [True, True, True, True]\<rparr>"
  "logical_and \<lparr>shape = [2, 2], elems = [True, True, True, True]\<rparr>
     \<lparr>shape = shape (data sample_detector),
      elems = map (\<lambda>v. \<not> is_nan v) (elems (data sample_detector))\<rparr>
   = Inr \<lparr>shape = [2, 2], elems = [True, False, True, True]\<rparr>"
  by (simp_all add: logical_and_def sample_detector_eq sample_magnetogram_def)

lemma sample_pil:
  "put (np_zeros (shape (data sample_detector))) (np_where [True, False, True, True]) (Fin 1)
   = \<lparr>shape = [2, 2], elems = [Fin 1, Fin 0, Fin 1, Fin 1]\<rparr>"
  by (simp add: sample_detector_eq sample_magnetogram_def np_where_def np_zeros_def put_def
      upt_4 replicate_4 nth_4 upd_4)

lemma sample_thin:
  "thin spread_lib \<lparr>shape = [2, 2], elems = [Fin 1, Fin 0, Fin 1, Fin 1]\<rparr>
   = Inr \<lparr>shape = [2, 2], elems = [True, False, True, True]\<rparr>"
proof -
  have "g123_lut spread_lib = (\<lambda>n. False)" "g123p_lut spread_lib = (\<lambda>n. False)"
    by (simp_all add: spread_lib_def)
  then show ?thesis by (simp add: thin_def check_nD_def thin_loop_keep del: thin_loop.simps)
qed

lemma sample_extract_pil:
  "extract_pil spread_lib sample_detector False
     = Inr (sample_detector\<lparr>pil_map := Some (FloatMap \<lparr>shape = [2, 2], elems = [Fin 1, Fin 0, Fin 1, Fin 1]\<rparr>)\<rparr>,
            FloatMap \<lparr>shape = [2, 2], elems = [Fin 1, Fin 0, Fin 1, Fin 1]\<rparr>)"
  "extract_pil spread_lib sample_detector True
     = Inr (sample_detector\<lparr>pil_map := Some (BoolMap \<lparr>shape = [2, 2], elems = [True, False, True, True]\<rparr>)\<rparr>,
            BoolMap \<lparr>shape = [2, 2], elems = [True, False, True, True]\<rparr>)"
  unfolding extract_pil_def sample_edges
  by (simp_all add: sample_dilate sample_mask sample_pil sample_thin Let_def)

lemma spread_lib_preserves_shape: "preserves_shape spread_lib"
  by (simp add: preserves_shape_def spread_lib_def)

section \<open>The claims\<close>

text \<open>
  Claim C1. On the profile \<open>magnitude(z) = 100 * exp(-z/5)\<close> at the grid heights
  \<open>0 .. 49\<close> with grid spacing \<open>1\<close>, the analytic crossing of the critical index
  \<open>1.5\<close> lies at the height \<open>7.5\<close>. \<^verbatim>\<open>find_critical_height\<close> samples the profile at the
  hundred heights \<open>49 * i / 99\<close> and finds the samples \<open>15\<close> and \<open>16\<close> (heights \<open>7.42\<close> and
  \<open>7.92\<close>) in the band, but it converts a sample index to a height as if the samples
  were one grid spacing apart: it returns the critical height \<open>15\<close> and the range
  \<open>(14.9, 16.1)\<close>, not a height within one step of \<open>7.5\<close>. (Computed without rounding.)
\<close>

theorem scenario_critical_height:
  "find_critical_height exact (exp_calculator 1) 0 0 (3 / 2) (1 / 10)
   = Inr \<lparr>decay_index = map (profile_entry (exp_calculator 1) 0 0 (0, 49) 100) [0..<100],
          critical_height = Fin 15,
          critical_height_range = (Fin (149 / 10), Fin (161 / 10))\<rparr>"
  using exp_critical_height[of 1] by simp

text \<open>
  Claim C2, as the code has it. \<^verbatim>\<open>identify_polarity_regions\<close> validates nothing: for
  every magnetogram and every pair of thresholds, also with \<open>pos_thresh \<le> neg_thresh\<close>,
  it returns normally, having set the positive map to one exactly where the
  (optionally smoothed) value is at least \<open>pos_thresh\<close> and the negative map to one
  exactly where the value is at most \<open>neg_thresh\<close>; a pixel whose value lies between
  inverted thresholds is thus in both maps.
\<close>

theorem identify_polarity_regions_unvalidated:
  fixes lib self pos_thresh neg_thresh apply_gaussian sigma
  defines "d \<equiv> smoothed lib self apply_gaussian sigma"
  shows "\<exists>p n. identify_polarity_regions lib self pos_thresh neg_thresh apply_gaussian sigma
                 = self\<lparr>pos_map := Some p, neg_map := Some n\<rparr> \<and>
               shape p = shape d \<and> shape n = shape d \<and>
               (\<forall>k. k < prod_list (shape d) \<and> k < length (elems d) \<longrightarrow>
                  elems p ! k = (if fle (Fin pos_thresh) (elems d ! k) then Fin 1 else Fin 0) \<and>
                  elems n ! k = (if fle (elems d ! k) (Fin neg_thresh) then Fin 1 else Fin 0))"
proof -
  let ?p = "put (np_zeros (shape d)) (np_where (map (\<lambda>v. fle (Fin pos_thresh) v) (elems d))) (Fin 1)"
  let ?n = "put (np_zeros (shape d)) (np_where (map (\<lambda>v. fle v (Fin neg_thresh)) (elems d))) (Fin 1)"
  have "identify_polarity_regions lib self pos_thresh neg_thresh apply_gaussian sigma
          = self\<lparr>pos_map := Some ?p, neg_map := Some ?n\<rparr>"
    unfolding d_def by (rule identify_polarity_regions_eq)
  moreover have "shape ?p = shape d" "shape ?n = shape d" by (simp_all add: put_zeros)
  moreover have "\<forall>k. k < prod_list (shape d) \<and> k < length (elems d) \<longrightarrow>
                  elems ?p ! k = (if fle (Fin pos_thresh) (elems d ! k) then Fin 1 else Fin 0) \<and>
                  elems ?n ! k = (if fle (elems d ! k) (Fin neg_thresh) then Fin 1 else Fin 0)"
    by (simp add: put_zeros)
  ultimately show ?thesis by blast
qed

text \<open>
  With the inverted thresholds \<open>-200\<close> and \<open>200\<close> the call is accepted and the two maps
  coincide on every valid pixel of the sample magnetogram.
\<close>

theorem inverted_thresholds_accepted:
  "identify_polarity_regions spread_lib (init_detector sample_magnetogram) (- 200) 200 False 3
   = \<lparr>data = sample_magnetogram,
      pos_map = Some \<lparr>shape = [2, 2], elems = [Fin 1, Fin 0, Fin 1, Fin 1]\<rparr>,
      neg_map = Some \<lparr>shape = [2, 2], elems = [Fin 1, Fin 0, Fin 1, Fin 1]\<rparr>,
      pil_map = None\<rparr>"
  by (simp add: identify_polarity_regions_def init_detector_def
      sample_magnetogram_def np_where_def np_zeros_def put_def upt_4 Let_def
      replicate_4 nth_4 upd_4)

text \<open>
  The statement of C2 at the sample magnetogram with the default thresholds.
\<close>

theorem identify_polarity_regions_unvalidated_witness:
  "\<exists>p n. identify_polarity_regions spread_lib (init_detector sample_magnetogram) 100 (- 100) False 3
            = (init_detector sample_magnetogram)\<lparr>pos_map := Some p, neg_map := Some n\<rparr> \<and>
          elems p ! 0 = Fin 1 \<and> elems n ! 0 = Fin 0 \<and> elems p ! 2 = Fin 0 \<and> elems n ! 2 = Fin 1"
proof -
  have d: "smoothed spread_lib (init_detector sample_magnetogram) False 3 = sample_magnetogram"
    by (simp add: smoothed_def init_detector_def)
  from identify_polarity_regions_unvalidated[of spread_lib "init_detector sample_magnetogram" 100 "- 100" False 3]
  obtain p n where pn:
    "identify_polarity_regions spread_lib (init_detector sample_magnetogram) 100 (- 100) False 3
       = (init_detector sample_magnetogram)\<lparr>pos_map := Some p, neg_map := Some n\<rparr>"
    "\<And>k. k < prod_list (shape sample_magnetogram) \<and> k < length (elems sample_magnetogram) \<Longrightarrow>
       elems p ! k = (if fle (Fin 100) (elems sample_magnetogram ! k) then Fin 1 else Fin 0) \<and>
       elems n ! k = (if fle (elems sample_magnetogram ! k) (Fin (- 100)) then Fin 1 else Fin 0)"
    unfolding d by blast
  from pn(2)[of 0] pn(2)[of 2]
  have "elems p ! 0 = Fin 1 \<and> elems n ! 0 = Fin 0 \<and> elems p ! 2 = Fin 0 \<and> elems n ! 2 = Fin 1"
    by (simp add: sample_magnetogram_def)
  then show ?thesis using pn(1) by blast
qed

text \<open>
  Claim C3, as the code has it. Constructing the calculator succeeds exactly when
  \<open>bx\<close> is three-dimensional and \<open>bh\<close> has at least three dimensions, the first three
  being those of \<open>bx\<close>; so it succeeds when the four arrays have one three-dimensional
  shape, and it fails when \<open>bh\<close> and \<open>bx\<close> disagree. The shapes of \<open>by\<close> and \<open>bz\<close>
  are never read.
\<close>

theorem init_calculator_succeeds_iff:
  "(\<exists>c. init_calculator fld gs = Inr c) \<longleftrightarrow>
     length (shape (bx fld)) = 3 \<and> 3 \<le> length (shape (bh fld)) \<and>
     take 3 (shape (bh fld)) = shape (bx fld)"
  by (auto simp: init_calculator_def setup_interpolators_def RegularGridInterpolator_def
        numeral_3_eq_3 split: list.splits sum.splits)

text \<open>
  A volume whose \<open>by\<close> array has the shape \<open>(3, 3, 3)\<close> while the other three have the shape
  \<open>(2, 2, 2)\<close> is accepted.
\<close>

theorem mismatched_by_accepted:
  "shape (by_c mismatched_field) \<noteq> shape (bx mismatched_field) \<and>
   init_calculator mismatched_field 1
     = Inr \<lparr>field = mismatched_field, dx = 1,
            bh_interpolator = \<lparr>grid = [2, 2, 2], vals = bh mismatched_field\<rparr>\<rparr>"
  by (simp add: mismatched_field_def column_field_def column_array_def init_calculator_def
      setup_interpolators_def RegularGridInterpolator_def)

text \<open>
  The statement of C3 at a volume of four arrays of one shape.
\<close>

theorem init_calculator_succeeds_iff_witness:
  "\<exists>c. init_calculator (column_field 2 (\<lambda>k. Fin 1)) 1 = Inr c"
  unfolding init_calculator_succeeds_iff
  by (simp add: column_field_def column_array_def)

text \<open>
  Claim C4. When the decay index profile above \<open>(x, y)\<close> has no sample inside the band
  \<open>[critical_index - uncertainty, critical_index + uncertainty]\<close>,
  \<^verbatim>\<open>find_critical_height\<close> returns normally, with the profile, the critical height
  \<open>+infinity\<close> and the range \<open>(+infinity, +infinity)\<close>.
\<close>

theorem find_critical_height_no_crossing: 
  assumes "calculate_decay_index rnd c x y None 100 = Inr di"
      and "\<forall>i<length di. \<not> in_band critical_index uncertainty (di ! i)"
  shows "find_critical_height rnd c x y critical_index uncertainty =
          Inr \<lparr>decay_index = di, critical_height = PInf, critical_height_range = (PInf, PInf)\<rparr>"
  using assms by (simp add: find_critical_height_def cross_points_def filter_empty_conv)

text \<open>
  The statement of C4 on a magnitude that is constant with height: the profile is
  zero throughout and never reaches the band around \<open>1.5\<close>.
\<close>

theorem find_critical_height_no_crossing_witness:
  "find_critical_height exact constant_calculator 0 0 (3 / 2) (1 / 10)
   = Inr \<lparr>decay_index = map (\<lambda>i. Fin 0) [0..<100], critical_height = PInf,
          critical_height_range = (PInf, PInf)\<rparr>"
  by (rule find_critical_height_no_crossing[OF constant_profile]) (simp add: in_band_def)

text \<open>
  Claim C5. When the profile has samples inside the band, \<^verbatim>\<open>find_critical_height\<close>
  does not return the height of the first of them: it returns the index of that sample
  times the grid spacing, and the samples are not one grid spacing apart. On the
  exponential profile with the grid spacing \<open>0.72\<close> the samples in the band are the
  samples \<open>15\<close> and \<open>16\<close>, which lie at the heights \<open>294/55\<close> (about \<open>5.35\<close>) and \<open>1568/275\<close>
  (about \<open>5.70\<close>); the critical height returned is \<open>15 * 0.72 = 10.8\<close> and the range is
  \<open>(10.728, 11.592)\<close>. (Computed without rounding.)
\<close>

theorem crossing_height_is_index_times_spacing:
  "find_critical_height exact (exp_calculator (72 / 100)) 0 0 (3 / 2) (1 / 10)
   = Inr \<lparr>decay_index = map (profile_entry (exp_calculator (72 / 100)) 0 0 (0, 49) 100) [0..<100],
          critical_height = Fin (54 / 5),
          critical_height_range = (Fin (1341 / 125), Fin (1449 / 125))\<rparr> \<and>
   cross_points (3 / 2) (1 / 10)
     (map (profile_entry (exp_calculator (72 / 100)) 0 0 (0, 49) 100) [0..<100]) = [15, 16] \<and>
   sample_height 0 49 100 15 * (72 / 100) = 294 / 55 \<and>
   sample_height 0 49 100 16 * (72 / 100) = 1568 / 275"
  using exp_critical_height[of "72 / 100"] exp_cross_points[of "72 / 100"]
  by (simp add: sample_height_def)

text \<open>
  Claim C6. Whenever \<^verbatim>\<open>extract_pil\<close> returns a map, with or without thinning and
  whatever the magnetogram holds, the map has the shape of the magnetogram and every
  true pixel of it lies on a magnetogram pixel that is not not-a-number.
\<close>

theorem extract_pil_masks_nan:
  assumes "extract_pil lib self thinning = Inr (self', m)"
  shows "map_shape m = shape (data self) \<and>
         (\<forall>k<length (pixels m). pixels m ! k \<longrightarrow>
            k < length (elems (data self)) \<and> \<not> is_nan (elems (data self) ! k))"
proof -
  obtain pe ne where de: "detect_edges lib self 1 = Inr (pe, ne)"
    using assms by (auto simp: extract_pil_def split: sum.splits)
  define mask where "mask = \<lparr>shape = shape (data self), elems = map (\<lambda>v. \<not> is_nan v) (elems (data self))\<rparr>"
  obtain both where b: "logical_and (dilate_edges lib pe 6) (dilate_edges lib ne 6) = Inr both"
    using assms de by (auto simp: extract_pil_def Let_def split: sum.splits)
  obtain m3 where m3: "logical_and both mask = Inr m3"
    using assms de b by (auto simp: extract_pil_def Let_def mask_def split: sum.splits)
  define pil where "pil = put (np_zeros (shape (data self))) (np_where (elems m3)) (Fin 1)"
  have res: "(if thinning then (case thin lib pil of Inl e \<Rightarrow> Inl e
                | Inr t \<Rightarrow> Inr (self\<lparr>pil_map := Some (BoolMap t)\<rparr>, BoolMap t))
             else Inr (self\<lparr>pil_map := Some (FloatMap pil)\<rparr>, FloatMap pil)) = Inr (self', m)"
    using assms de b m3 by (auto simp: extract_pil_def Let_def mask_def pil_def split: if_splits)
  have pil_true: "\<And>k. k < prod_list (shape (data self)) \<Longrightarrow> elems pil ! k \<noteq> Fin 0 \<Longrightarrow>
      k < length (elems (data self)) \<and> \<not> is_nan (elems (data self) ! k)"
  proof -
    fix k assume k: "k < prod_list (shape (data self))" and t: "elems pil ! k \<noteq> Fin 0"
    have "k < length (elems m3) \<and> elems m3 ! k"
      using t k by (auto simp: pil_def put_zeros split: if_splits)
    then have "k < length (elems mask) \<and> elems mask ! k"
      using logical_and_Inr(3)[OF m3, of k] by simp
    then show "k < length (elems (data self)) \<and> \<not> is_nan (elems (data self) ! k)"
      by (auto simp: mask_def)
  qed
  have pl: "shape pil = shape (data self)" "length (elems pil) = prod_list (shape (data self))"
    by (simp_all add: pil_def put_zeros)
  show ?thesis
  proof (cases thinning)
    case False
    then have "m = FloatMap pil" using res by simp
    then show ?thesis using pl pil_true by auto
  next
    case True
    then obtain t where t: "thin lib pil = Inr t" "m = BoolMap t"
      using res by (auto split: sum.splits)
    define s0 where "s0 = \<lparr>shape = shape pil, elems = map (\<lambda>v. v \<noteq> Fin 0) (elems pil)\<rparr>"
    have tt: "t = thin_loop (g123_lut lib) (g123p_lut lib) s0"
      using t(1) by (auto simp: thin_def check_nD_def s0_def split: if_splits)
    note tp = thin_loop_props[of "g123_lut lib" "g123p_lut lib" s0]
    have "shape t = shape (data self)" using tp pl by (simp add: tt s0_def)
    moreover have "\<forall>k<length (elems t). elems t ! k \<longrightarrow>
            k < length (elems (data self)) \<and> \<not> is_nan (elems (data self) ! k)"
    proof (intro allI impI)
      fix k assume k: "k < length (elems t)" and e: "elems t ! k"
      have k': "k < prod_list (shape (data self))" using k tp pl by (simp add: tt s0_def)
      then have "elems s0 ! k" using tp e k by (simp add: tt s0_def pl)
      then have "elems pil ! k \<noteq> Fin 0" using k' pl by (simp add: s0_def)
      then show "k < length (elems (data self)) \<and> \<not> is_nan (elems (data self) ! k)"
        using pil_true[OF k'] by simp
    qed
    ultimately show ?thesis using t(2) by simp
  qed
qed

text \<open>
  The statement of C6 on the sample magnetogram, with thinning: the invalid pixel is
  the one pixel left out of the map.
\<close>

theorem extract_pil_masks_nan_witness:
  "extract_pil spread_lib sample_detector True
     = Inr (sample_detector\<lparr>pil_map := Some (BoolMap \<lparr>shape = [2, 2], elems = [True, False, True, True]\<rparr>)\<rparr>,
            BoolMap \<lparr>shape = [2, 2], elems = [True, False, True, True]\<rparr>) \<and>
   is_nan (elems (data sample_detector) ! 1) \<and>
   \<not> is_nan (elems (data sample_detector) ! 0) \<and>
   \<not> is_nan (elems (data sample_detector) ! 2) \<and>
   \<not> is_nan (elems (data sample_detector) ! 3)"
proof -
  note t = extract_pil_masks_nan[OF sample_extract_pil(2)]
  then have "\<And>k. k < 4 \<Longrightarrow> [True, False, True, True] ! k \<Longrightarrow>
      \<not> is_nan (elems (data sample_detector) ! k)"
    by simp
  from this[of 0] this[of 2] this[of 3]
  have "\<not> is_nan (elems (data sample_detector) ! 0)" "\<not> is_nan (elems (data sample_detector) ! 2)"
    "\<not> is_nan (elems (data sample_detector) ! 3)" by simp_all
  moreover have "is_nan (elems (data sample_detector) ! 1)"
    by (simp add: sample_detector_eq sample_magnetogram_def)
  ultimately show ?thesis using sample_extract_pil(2) by simp
qed

text \<open>
  Claim C7. For a fixed magnetogram and fixed smoothing, raising \<open>pos_thresh\<close> from
  \<open>t1\<close> to \<open>t2\<close> does not raise the number of set pixels of the positive map.
\<close>

theorem positive_count_antitone:
  assumes "t1 \<le> t2"
  shows "\<exists>p1 p2. pos_map (identify_polarity_regions lib self t1 neg_thresh apply_gaussian sigma) = Some p1 \<and>
                 pos_map (identify_polarity_regions lib self t2 neg_thresh apply_gaussian sigma) = Some p2 \<and>
                 count_nonzero p2 \<le> count_nonzero p1"
proof -
  define d where "d = smoothed lib self apply_gaussian sigma"
  define p where "p = (\<lambda>t. put (np_zeros (shape d)) (np_where (map (\<lambda>v. fle (Fin t) v) (elems d))) (Fin 1))"
  have pm: "\<And>t. pos_map (identify_polarity_regions lib self t neg_thresh apply_gaussian sigma) = Some (p t)"
    unfolding identify_polarity_regions_eq p_def d_def by simp
  have "length (filter (\<lambda>b. b) (map (\<lambda>v. v \<noteq> Fin 0) (elems (p t2))))
        \<le> length (filter (\<lambda>b. b) (map (\<lambda>v. v \<noteq> Fin 0) (elems (p t1))))"
  proof (rule count_true_mono)
    show "length (map (\<lambda>v. v \<noteq> Fin 0) (elems (p t2))) = length (map (\<lambda>v. v \<noteq> Fin 0) (elems (p t1)))"
      by (simp add: p_def put_zeros)
  next
    fix k assume k: "k < length (map (\<lambda>v. v \<noteq> Fin 0) (elems (p t2)))"
      and t: "map (\<lambda>v. v \<noteq> Fin 0) (elems (p t2)) ! k"
    have k': "k < prod_list (shape d)" using k by (simp add: p_def put_zeros)
    have "k < length (elems d) \<and> fle (Fin t2) (elems d ! k)"
      using t k' by (auto simp: p_def put_zeros split: if_splits)
    then have "k < length (elems d) \<and> fle (Fin t1) (elems d ! k)"
      using fle_trans_Fin[OF assms] by blast
    then show "map (\<lambda>v. v \<noteq> Fin 0) (elems (p t1)) ! k"
      using k' by (simp add: p_def put_zeros)
  qed
  then have "count_nonzero (p t2) \<le> count_nonzero (p t1)"
    by (simp add: count_nonzero_def filter_map comp_def)
  then show ?thesis using pm by blast
qed

text \<open>
  The statement of C7 on the sample magnetogram, for the thresholds \<open>-200\<close> and \<open>100\<close>.
\<close>

theorem positive_count_antitone_witness:
  "\<exists>p1 p2. pos_map (identify_polarity_regions spread_lib (init_detector sample_magnetogram) (- 200) (- 100) False 3) = Some p1 \<and>
           pos_map (identify_polarity_regions spread_lib (init_detector sample_magnetogram) 100 (- 100) False 3) = Some p2 \<and>
           count_nonzero p2 \<le> count_nonzero p1"
  by (rule positive_count_antitone) simp







text \<open>
  Claim C10, as the code has it. On a detector on which \<^verbatim>\<open>identify_polarity_regions\<close>
  has not been called, the polarity maps are \<^verbatim>\<open>None\<close> and \<^verbatim>\<open>extract_pil\<close> and
  \<^verbatim>\<open>detect_edges\<close> fail. After \<^verbatim>\<open>identify_polarity_regions\<close>, on a magnetogram of
  \<open>nr \<times> nc\<close> pixels that is not empty and with image routines that return arrays of the
  shape of their argument, \<^verbatim>\<open>extract_pil\<close> returns a map of the shape of the
  magnetogram.
\<close>

theorem extract_pil_needs_polarity_maps:
  assumes lib: "preserves_shape lib"
      and sh: "shape (data self) = [nr, nc]" "nr * nc \<noteq> 0"
  shows "(\<exists>e. extract_pil lib (init_detector magnetogram) thinning = Inl e) \<and>
         (\<exists>e. detect_edges lib (init_detector magnetogram) sigma = Inl e) \<and>
         (\<exists>self' m. extract_pil lib
              (identify_polarity_regions lib self pos_thresh neg_thresh apply_gaussian sg) thinning
              = Inr (self', m) \<and> map_shape m = shape (data self))"
proof -
  have n: "detect_edges lib (init_detector magnetogram) s = Inl ValueError" for s
    by (simp add: detect_edges_def init_detector_def check_nD_def)
  have n2: "extract_pil lib (init_detector magnetogram) thinning = Inl ValueError"
    by (simp add: extract_pil_def n)
  define st where "st = identify_polarity_regions lib self pos_thresh neg_thresh apply_gaussian sg"
  define d where "d = smoothed lib self apply_gaussian sg"
  have shd: "shape d = [nr, nc]" using lib sh by (simp add: d_def smoothed_def preserves_shape_def)
  obtain p n where pn: "pos_map st = Some p" "neg_map st = Some n" "shape p = [nr, nc]" "shape n = [nr, nc]"
      "data st = data self"
    unfolding st_def identify_polarity_regions_eq using shd by (simp add: put_zeros d_def)
  have de: "detect_edges lib st 1 = Inr (canny lib p 1, canny lib n 1)"
    using pn sh(2) by (simp add: detect_edges_def check_nD_def)
  have shc: "shape (dilate_edges lib (canny lib p 1) 6) = [nr, nc]"
      "shape (dilate_edges lib (canny lib n 1) 6) = [nr, nc]"
    using lib pn by (simp_all add: dilate_edges_def preserves_shape_def)
  obtain both where b: "logical_and (dilate_edges lib (canny lib p 1) 6) (dilate_edges lib (canny lib n 1) 6) = Inr both"
      "shape both = [nr, nc]"
    using shc by (simp add: logical_and_def)
  define mask where "mask = \<lparr>shape = shape (data st), elems = map (\<lambda>v. \<not> is_nan v) (elems (data st))\<rparr>"
  obtain m3 where m3: "logical_and both mask = Inr m3"
    using b(2) pn(5) sh by (simp add: logical_and_def mask_def)
  define pil where "pil = put (np_zeros (shape (data st))) (np_where (elems m3)) (Fin 1)"
  have pl: "shape pil = [nr, nc]" using pn(5) sh by (simp add: pil_def put_zeros)
  have ep: "extract_pil lib st thinning =
      (if thinning then (case thin lib pil of Inl e \<Rightarrow> Inl e
                | Inr t \<Rightarrow> Inr (st\<lparr>pil_map := Some (BoolMap t)\<rparr>, BoolMap t))
             else Inr (st\<lparr>pil_map := Some (FloatMap pil)\<rparr>, FloatMap pil))"
    using de b(1) m3 by (auto simp: extract_pil_def Let_def mask_def pil_def split: if_splits)
  have "\<exists>self' m. extract_pil lib st thinning = Inr (self', m) \<and> map_shape m = shape (data self)"
  proof (cases thinning)
    case False
    then show ?thesis using ep pl sh by simp
  next
    case True
    have "thin lib pil = Inr (thin_loop (g123_lut lib) (g123p_lut lib)
        \<lparr>shape = shape pil, elems = map (\<lambda>v. v \<noteq> Fin 0) (elems pil)\<rparr>)"
      using pl sh(2) by (simp add: thin_def check_nD_def)
    then show ?thesis using True ep pl sh thin_loop_props by simp
  qed
  then show ?thesis using n n2 unfolding st_def by blast
qed

text \<open>
  After \<^verbatim>\<open>identify_polarity_regions\<close> on a magnetogram of one dimension, or on an empty
  one, \<^verbatim>\<open>extract_pil\<close> still raises: the edge detector refuses the polarity map.
\<close>

theorem extract_pil_rejects_shape:
  "extract_pil spread_lib
     (identify_polarity_regions spread_lib (init_detector line_magnetogram) 100 (- 100) False 3) True
   = Inl ValueError \<and>
   extract_pil spread_lib
     (identify_polarity_regions spread_lib (init_detector empty_magnetogram) 100 (- 100) False 3) True
   = Inl ValueError"
  by (simp add: extract_pil_def detect_edges_def check_nD_def identify_polarity_regions_eq
      put_zeros smoothed_def init_detector_def line_magnetogram_def empty_magnetogram_def)

text \<open>
  The statement of C10 on the sample magnetogram.
\<close>

theorem extract_pil_needs_polarity_maps_witness:
  "(\<exists>e. extract_pil spread_lib (init_detector sample_magnetogram) True = Inl e) \<and>
   (\<exists>e. detect_edges spread_lib (init_detector sample_magnetogram) 1 = Inl e) \<and>
   (\<exists>self' m. extract_pil spread_lib
        (identify_polarity_regions spread_lib (init_detector sample_magnetogram) 100 (- 100) False 3) True
        = Inr (self', m) \<and> map_shape m = shape (data (init_detector sample_magnetogram)))"
  by (rule extract_pil_needs_polarity_maps[OF spread_lib_preserves_shape, of _ 2 2])
     (simp_all add: init_detector_def sample_magnetogram_def)

end
